theory Spec2Isabelle
  imports Complex_Main "HOL-Library.Product_Lexorder"
begin

section \<open>JavaScript strings and numbers used by the orchestrator\<close>

text \<open>
  Strings are \<open>char list\<close>; the option keys, log lines and selectors of the program are ASCII.
  \<open>str_includes\<close> is \<open>String.prototype.includes\<close>, \<open>toLowerCase\<close> acts on the ASCII letters.
\<close>

fun startsWith :: "string \<Rightarrow> string \<Rightarrow> bool" where
  "startsWith s [] = True"
| "startsWith [] (c # cs) = False"
| "startsWith (x # xs) (c # cs) = (x = c \<and> startsWith xs cs)"

fun str_includes :: "string \<Rightarrow> string \<Rightarrow> bool" where
  "str_includes [] n = (n = [])"
| "str_includes (x # xs) n = (startsWith (x # xs) n \<or> str_includes xs n)"

definition isUpper :: "char \<Rightarrow> bool" where
  "isUpper c = (c \<in> set ''ABCDEFGHIJKLMNOPQRSTUVWXYZ'')"

definition isLowerOrDigit :: "char \<Rightarrow> bool" where
  "isLowerOrDigit c = (c \<in> set ''abcdefghijklmnopqrstuvwxyz0123456789'')"

definition lowerChar :: "char \<Rightarrow> char" where
  "lowerChar c =
     (case map_of (zip ''ABCDEFGHIJKLMNOPQRSTUVWXYZ'' ''abcdefghijklmnopqrstuvwxyz'') c of
        None \<Rightarrow> c
      | Some l \<Rightarrow> l)"

definition toLowerCase :: "string \<Rightarrow> string" where
  "toLowerCase s = map lowerChar s"

text \<open>\<open>Number.prototype.toString\<close> on an integer: decimal digits, a leading minus sign.\<close>

definition digitChar :: "nat \<Rightarrow> char" where
  "digitChar d = ''0123456789'' ! d"

fun natToString :: "nat \<Rightarrow> string" where
  "natToString n =
     (if n < 10 then [digitChar n]
      else natToString (n div 10) @ [digitChar (n mod 10)])"

declare natToString.simps [simp del]

definition numToString :: "int \<Rightarrow> string" where
  "numToString i = (if i < 0 then CHR ''-'' # natToString (nat (- i)) else natToString (nat i))"

text \<open>\<open>Array.prototype.slice(start)\<close> with one argument: a negative start counts from the end.\<close>

definition sliceFrom :: "int \<Rightarrow> 'a list \<Rightarrow> 'a list" where
  "sliceFrom start xs =
     (if start < 0 then drop (nat (int (length xs) + start)) xs else drop (nat start) xs)"

text \<open>\<open>String.prototype.trim\<close> and \<open>split\<close> on a one-character separator.\<close>

definition isSpace :: "char \<Rightarrow> bool" where
  "isSpace c = (c \<in> set [CHR '' '', CHR 0x09, CHR 0x0A, CHR 0x0B, CHR 0x0C, CHR 0x0D])"

definition trim :: "string \<Rightarrow> string" where
  "trim s = rev (dropWhile isSpace (rev (dropWhile isSpace s)))"

fun splitOn :: "char \<Rightarrow> string \<Rightarrow> string list" where
  "splitOn sep [] = [[]]"
| "splitOn sep (c # cs) =
     (if c = sep then [] # splitOn sep cs
      else (case splitOn sep cs of [] \<Rightarrow> [[c]] | seg # segs \<Rightarrow> (c # seg) # segs))"

fun joinWith :: "string \<Rightarrow> string list \<Rightarrow> string" where
  "joinWith sep [] = []"
| "joinWith sep [x] = x"
| "joinWith sep (x # y # ys) = x @ sep @ joinWith sep (y # ys)"

section \<open>Runtime locator (\<open>pythonUtils.ts\<close>)\<close>

text \<open>
  What the locator asks of its surroundings: the platform, the glob scanner (\<open>None\<close> when
  the scan throws), \<open>existsSync\<close>, the output of \<open>path --version\<close> (\<open>None\<close> when the
  shell call throws) and the output of \<open>which python3\<close> / \<open>where python\<close>.
\<close>

record py_world =
  isWin32 :: bool
  glob_scan :: "string \<Rightarrow> string \<Rightarrow> string list option"
  existsSync :: "string \<Rightarrow> bool"
  run_version :: "string \<Rightarrow> string option"
  which_python :: "string option"

record env_row =
  ev_value :: string
  ev_description :: "string option"

text \<open>
  The module state: the cache \<open>pythonPathCache\<close> and the table \<open>env_vars\<close> (keyed by its
  primary key; the \<open>updated_at\<close> column is left out). \<open>scan_count\<close> and \<open>db_reads\<close> are
  ghost counters of the disk scans and the config-store selects executed so far.
\<close>

record py_state =
  pythonPathCache :: "string \<rightharpoonup> string"
  envVars :: "string \<rightharpoonup> env_row"
  scan_count :: nat
  db_reads :: nat

record validation =
  valid :: bool
  version :: "string option"
  verror :: "string option"

definition findPythonInVenv :: "py_world \<Rightarrow> string \<Rightarrow> string option" where
  "findPythonInVenv w baseDir =
     (let pythonExe = (if isWin32 w then ''python.exe'' else ''python'') in
      case glob_scan w (''{venv,.venv,env,.env}/{bin,Scripts}/'' @ pythonExe) baseDir of
        None \<Rightarrow> None
      | Some matches \<Rightarrow>
          (case find (existsSync w) matches of
             Some m \<Rightarrow> Some m
           | None \<Rightarrow>
               (let condaEnvPath = baseDir @ ''/conda_env'' in
                if existsSync w condaEnvPath then
                  (case glob_scan w ''**/python{,.exe}'' condaEnvPath of
                     None \<Rightarrow> None
                   | Some ms \<Rightarrow> find (existsSync w) ms)
                else None)))"

definition findSystemPython :: "py_world \<Rightarrow> string" where
  "findSystemPython w =
     (case which_python w of
        None \<Rightarrow> ''python''
      | Some result \<Rightarrow>
          (let first = (case splitOn CHR 0x0A (trim result) of [] \<Rightarrow> [] | l # _ \<Rightarrow> l) in
           if first \<noteq> [] then first else (if isWin32 w then ''python'' else ''python3'')))"

definition validatePython :: "py_world \<Rightarrow> string \<Rightarrow> validation" where
  "validatePython w path =
     (case run_version w path of
        None \<Rightarrow> \<lparr>valid = False, version = None, verror = Some ''ShellError''\<rparr>
      | Some versionOutput \<Rightarrow>
          if \<not> str_includes (toLowerCase versionOutput) ''python''
          then \<lparr>valid = False, version = None, verror = Some ''Not a Python executable''\<rparr>
          else \<lparr>valid = True, version = Some (trim versionOutput), verror = None\<rparr>)"

definition detectedRow :: "string \<Rightarrow> validation \<Rightarrow> env_row" where
  "detectedRow venvPython v =
     \<lparr>ev_value = venvPython,
      ev_description = Some (''Automatically detected virtual environment ('' @
        (case version v of None \<Rightarrow> ''undefined'' | Some ver \<Rightarrow> ver) @ '')'')\<rparr>"

definition systemFallback :: "py_world \<Rightarrow> string \<Rightarrow> py_state \<Rightarrow> string \<times> py_state" where
  "systemFallback w comfyuiPath st =
     (let systemPython = findSystemPython w in
      (systemPython, st\<lparr>pythonPathCache := (pythonPathCache st)(comfyuiPath \<mapsto> systemPython)\<rparr>))"

definition detectVenv :: "py_world \<Rightarrow> string \<Rightarrow> py_state \<Rightarrow> string \<times> py_state" where
  "detectVenv w comfyuiPath st0 =
     (let st = st0\<lparr>scan_count := Suc (scan_count st0)\<rparr> in
      case findPythonInVenv w comfyuiPath of
        None \<Rightarrow> systemFallback w comfyuiPath st
      | Some venvPython \<Rightarrow>
          if venvPython = [] then systemFallback w comfyuiPath st
          else (let v = validatePython w venvPython in
                if valid v then
                  (venvPython,
                   st\<lparr>envVars := (envVars st)(''PYTHON_PATH'' \<mapsto> detectedRow venvPython v),
                      pythonPathCache := (pythonPathCache st)(comfyuiPath \<mapsto> venvPython)\<rparr>)
                else systemFallback w comfyuiPath st))"

text \<open>
  \<open>getPythonPath\<close>: the cache first, then the configured \<open>PYTHON_PATH\<close> if it validates,
  then the scan of the install directory (\<open>detectVenv\<close>), then the system interpreter
  (\<open>systemFallback\<close>); the last three are the consecutive blocks of the source function.
\<close>

definition getPythonPath :: "py_world \<Rightarrow> string \<Rightarrow> py_state \<Rightarrow> string \<times> py_state" where
  "getPythonPath w comfyuiPath st0 =
     (case pythonPathCache st0 comfyuiPath of
        Some cached \<Rightarrow> (cached, st0)
      | None \<Rightarrow>
          (let st = st0\<lparr>db_reads := Suc (db_reads st0)\<rparr> in
           case envVars st ''PYTHON_PATH'' of
             None \<Rightarrow> detectVenv w comfyuiPath st
           | Some row \<Rightarrow>
               if ev_value row = [] then detectVenv w comfyuiPath st
               else if valid (validatePython w (ev_value row)) then
                 (ev_value row,
                  st\<lparr>pythonPathCache := (pythonPathCache st)(comfyuiPath \<mapsto> ev_value row)\<rparr>)
               else detectVenv w comfyuiPath st))"

definition clearPythonPathCache :: "py_state \<Rightarrow> py_state" where
  "clearPythonPathCache st = st\<lparr>pythonPathCache := Map.empty\<rparr>"

section \<open>Worker lifecycle manager (\<open>ComfyUICli\<close>): data\<close>

datatype status = Running | Starting | Stopped | Error

fun statusString :: "status \<Rightarrow> string" where
  "statusString Running = ''running''"
| "statusString Starting = ''starting''"
| "statusString Stopped = ''stopped''"
| "statusString Error = ''error''"

text \<open>
  A value of the flat option record \<open>ComfyUIOptions\<close>: a boolean, a number (the numeric
  options are integers here), a string, an array of strings, or \<open>undefined\<close>. The record
  itself is the list of its entries in insertion order, which is the order
  \<open>Object.entries\<close> visits them in.
\<close>

datatype opt_value = VUndefined | VBool bool | VNum int | VStr string | VArr "string list"

type_synonym ComfyUIOptions = "(string \<times> opt_value) list"

text \<open>
  The in-memory record of a worker. \<open>process\<close> tells whether the child-process handle is
  held (\<open>null\<close> otherwise), \<open>pid\<close> is \<open>None\<close> when it is \<open>undefined\<close>; the start time is left
  out.
\<close>

record ComfyInstance =
  inst_id :: string
  process :: bool
  port :: int
  host :: string
  gpuIndices :: string
  options :: ComfyUIOptions
  status :: status
  pid :: "nat option"
  logs :: "string list"
  errors :: "string list"
  warnings :: "string list"
  lastError :: "string option"

text \<open>
  The fields of the class the operations below read: the instance map and the two
  timeouts, each the result of \<open>parseInt\<close> (\<open>None\<close> is \<open>NaN\<close>), and the cached
  interpreter path.
\<close>

record ComfyUICli =
  comfyuiPath :: string
  pythonPath :: "string option"
  initialized :: bool
  instances :: "string \<rightharpoonup> ComfyInstance"
  startupTimeout :: "int option"
  checkInterval :: "int option"

record ready_result =
  ready :: bool
  rstatus :: string

section \<open>Log and status accessors\<close>

definition getInstanceErrors :: "ComfyUICli \<Rightarrow> string \<Rightarrow> string list" where
  "getInstanceErrors cli instanceId =
     (case instances cli instanceId of None \<Rightarrow> [] | Some instance \<Rightarrow> errors instance)"

definition getInstanceWarnings :: "ComfyUICli \<Rightarrow> string \<Rightarrow> string list" where
  "getInstanceWarnings cli instanceId =
     (case instances cli instanceId of None \<Rightarrow> [] | Some instance \<Rightarrow> warnings instance)"

text \<open>\<open>limit\<close> defaults to 50 when the caller passes none.\<close>

definition getInstanceLogs :: "ComfyUICli \<Rightarrow> string \<Rightarrow> int option \<Rightarrow> string list" where
  "getInstanceLogs cli instanceId limit =
     (case instances cli instanceId of
        None \<Rightarrow> []
      | Some instance \<Rightarrow> sliceFrom (- (case limit of None \<Rightarrow> 50 | Some l \<Rightarrow> l)) (logs instance))"

section \<open>Argument builder\<close>

text \<open>
  \<open>toKebabCase\<close> replaces every match of \<open>([a-z0-9])([A-Z])\<close>, scanning from the left and
  resuming after the two characters of a match, then lower-cases the result.
\<close>

fun insertDashes :: "string \<Rightarrow> string" where
  "insertDashes (a # b # rest) =
     (if isLowerOrDigit a \<and> isUpper b then a # CHR ''-'' # b # insertDashes rest
      else a # insertDashes (b # rest))"
| "insertDashes s = s"

definition toKebabCase :: "string \<Rightarrow> string" where
  "toKebabCase str = toLowerCase (insertDashes str)"

text \<open>
  \<open>toString\<close> of an option value (on an array it joins the elements with commas). Every
  call below is guarded by a test that the value is not \<open>undefined\<close>.
\<close>

fun valueToString :: "opt_value \<Rightarrow> string" where
  "valueToString (VBool b) = (if b then ''true'' else ''false'')"
| "valueToString (VNum n) = numToString n"
| "valueToString (VStr s) = s"
| "valueToString (VArr items) = joinWith '','' items"
| "valueToString VUndefined = ''undefined''"

text \<open>The inner loop \<open>for (const item of value) args.push(flag, item.toString())\<close>.\<close>

fun pushItems :: "string \<Rightarrow> string list \<Rightarrow> string list \<Rightarrow> string list" where
  "pushItems flag [] args = args"
| "pushItems flag (item # items) args = pushItems flag items (args @ [flag, item])"

text \<open>
  The loop over \<open>Object.entries(options)\<close>, with \<open>args\<close> as the accumulator that
  \<open>args.push\<close> extends; every \<open>continue\<close> is the recursive call on the remaining entries.
\<close>

fun buildArgsLoop :: "ComfyUIOptions \<Rightarrow> string list \<Rightarrow> string list" where
  "buildArgsLoop [] args = args"
| "buildArgsLoop ((key, v) # rest) args =
     (if key = ''cudaDevice'' \<or> key = ''useMps'' then buildArgsLoop rest args
      else if v = VUndefined \<or> v = VBool False then buildArgsLoop rest args
      else (let kebabKey = toKebabCase key in
        if v = VBool True then buildArgsLoop rest (args @ [''--'' @ kebabKey])
        else (case v of
            VArr items \<Rightarrow>
              if kebabKey = ''fast'' then
                (if length items = 0 then buildArgsLoop rest (args @ [''--'' @ kebabKey])
                 else buildArgsLoop rest (args @ (''--'' @ kebabKey) # items))
              else buildArgsLoop rest (pushItems (''--'' @ kebabKey) items args)
          | _ \<Rightarrow> buildArgsLoop rest (args @ [''--'' @ kebabKey, valueToString v]))))"

definition buildArgs :: "ComfyUIOptions \<Rightarrow> string list" where
  "buildArgs opts = buildArgsLoop opts []"

section \<open>Launch\<close>

datatype platform = Linux | MacOS | Windows | OtherOS

text \<open>Property access \<open>options.key\<close>: \<open>undefined\<close> when the key is absent.\<close>

definition getOpt :: "ComfyUIOptions \<Rightarrow> string \<Rightarrow> opt_value" where
  "getOpt opts key = (case map_of opts key of None \<Rightarrow> VUndefined | Some v \<Rightarrow> v)"

text \<open>JavaScript truthiness of an option value.\<close>

fun truthy :: "opt_value \<Rightarrow> bool" where
  "truthy VUndefined = False"
| "truthy (VBool b) = b"
| "truthy (VNum n) = (n \<noteq> 0)"
| "truthy (VStr s) = (s \<noteq> [])"
| "truthy (VArr items) = True"

text \<open>\<open>getPlatformEnv\<close>: the variables added to the parent's environment.\<close>

definition getPlatformEnv :: "platform \<Rightarrow> ComfyUIOptions \<Rightarrow> (string \<times> string) list" where
  "getPlatformEnv os opts =
     (if (os = Linux \<or> os = Windows) \<and> getOpt opts ''cudaDevice'' \<noteq> VUndefined
      then [(''CUDA_VISIBLE_DEVICES'', valueToString (getOpt opts ''cudaDevice''))] else []) @
     (if os = MacOS \<and> truthy (getOpt opts ''useMps'')
      then [(''PYTORCH_ENABLE_MPS_FALLBACK'', ''1'')] else [])"

record spawn_request =
  command :: string
  argv :: "string list"
  cwd :: string
  extra_env :: "(string \<times> string) list"

text \<open>
  \<open>spawn\<close> either throws or returns a child whose \<open>pid\<close> may be \<open>undefined\<close> (the
  executable could not be started; the \<open>error\<close> event follows later).
\<close>

datatype spawn_outcome = SpawnThrows string | Spawned "nat option"

text \<open>
  What \<open>launchInstance\<close> can throw: a \<open>ReferenceError\<close> on the named variable, or the
  error of \<open>spawn\<close> with its message.
\<close>

datatype js_error = ReferenceError string | SpawnError string

text \<open>
  A block-scoped \<open>const\<close> binding: uninitialised from the start of its block until its
  declaration has been evaluated, and reading it in that state throws a
  \<open>ReferenceError\<close>.
\<close>

datatype 'a binding = Uninitialized | Initialized 'a

definition readBinding :: "string \<Rightarrow> 'a binding \<Rightarrow> js_error + 'a" where
  "readBinding name b =
     (case b of Uninitialized \<Rightarrow> Inl (ReferenceError name) | Initialized v \<Rightarrow> Inr v)"

text \<open>\<open>initialize\<close>: resolve the interpreter once through the runtime locator.\<close>

definition initialize :: "py_world \<Rightarrow> ComfyUICli \<times> py_state \<Rightarrow> string \<times> ComfyUICli \<times> py_state" where
  "initialize w cs =
     (case cs of (cli, ps) \<Rightarrow>
      (case pythonPath cli of
         Some p \<Rightarrow>
           if initialized cli \<and> p \<noteq> [] then (p, cli, ps)
           else (case getPythonPath w (comfyuiPath cli) ps of
                   (p', ps') \<Rightarrow> (p', cli\<lparr>pythonPath := Some p', initialized := True\<rparr>, ps'))
       | None \<Rightarrow>
           (case getPythonPath w (comfyuiPath cli) ps of
              (p', ps') \<Rightarrow> (p', cli\<lparr>pythonPath := Some p', initialized := True\<rparr>, ps'))))"

text \<open>
  \<open>launchInstance\<close>. The typed options give \<open>port\<close> a number and \<open>listen\<close> a string; any
  other value falls back to the default as a falsy one does.

  The statement \<open>const process = spawn(path, ['main.py', ...args], {cwd, env: {...process.env,
  ...env}, stdio})\<close> stands inside the \<open>try\<close> block, so the \<open>process\<close> its third argument
  reads is the constant this very statement declares, not the global object. The
  arguments are evaluated before \<open>spawn\<close> is called, the binding is still uninitialised
  then, and the read throws; the \<open>catch\<close> block logs and rethrows. The code after the
  read is kept as the source has it. The result is what the call throws (\<open>Inl\<close>) or
  returns (\<open>Inr\<close>), with the state of the manager and of the locator as the call leaves
  them.
\<close>

definition launchInstance ::
  "py_world \<Rightarrow> platform \<Rightarrow> (spawn_request \<Rightarrow> spawn_outcome) \<Rightarrow> string \<Rightarrow> ComfyUIOptions \<Rightarrow>
     ComfyUICli \<times> py_state \<Rightarrow> (js_error + ComfyInstance) \<times> ComfyUICli \<times> py_state" where
  "launchInstance w os spawn instanceId opts cs =
     (case (if (case pythonPath (fst cs) of None \<Rightarrow> True | Some p \<Rightarrow> p = [])
            then snd (initialize w cs) else cs) of
        (cli, ps) \<Rightarrow>
      (let args = buildArgs opts;
           env = getPlatformEnv os opts;
           host = (case getOpt opts ''listen'' of VStr h \<Rightarrow> if h = [] then ''127.0.0.1'' else h
                   | _ \<Rightarrow> ''127.0.0.1'');
           instance = \<lparr>inst_id = instanceId, process = False,
                       port = (case getOpt opts ''port'' of VNum n \<Rightarrow> if n = 0 then 8188 else n
                               | _ \<Rightarrow> 8188),
                       host = host, gpuIndices = [], options = opts, status = Starting,
                       pid = None, logs = [], errors = [], warnings = [], lastError = None\<rparr>
       in case readBinding ''process'' (Uninitialized :: (nat option) binding) of
            Inl err \<Rightarrow> (Inl err, cli, ps)
          | Inr self \<Rightarrow>
        (case spawn \<lparr>command = (case pythonPath cli of None \<Rightarrow> [] | Some p \<Rightarrow> p),
                       argv = ''main.py'' # args, cwd = comfyuiPath cli, extra_env = env\<rparr> of
            SpawnThrows msg \<Rightarrow> (Inl (SpawnError msg), cli, ps)
          | Spawned childPid \<Rightarrow>
              (let instance1 = instance\<lparr>process := True, pid := childPid\<rparr>;
                   instance2 = instance1\<lparr>gpuIndices :=
                     (if getOpt opts ''cudaDevice'' \<noteq> VUndefined
                      then valueToString (getOpt opts ''cudaDevice'')
                      else if os = MacOS \<and> truthy (getOpt opts ''useMps'') then ''mps''
                      else ''cpu'')\<rparr>;
                   cli' = cli\<lparr>instances := (instances cli)(instanceId \<mapsto> instance2)\<rparr>;
                   instance3 = instance2\<lparr>status := Running\<rparr>
               in (Inr instance3,
                   cli'\<lparr>instances := (instances cli')(instanceId \<mapsto> instance3)\<rparr>, ps)))))"

section \<open>Child-process events\<close>

text \<open>
  The handlers \<open>launchInstance\<close> attaches to the child: one complete non-empty line on
  stdout or stderr, the \<open>exit\<close> event (code, signal) and the \<open>error\<close> event.
\<close>

datatype proc_event =
  StdoutLine string | StderrLine string | Exit "int option" "string option" | ProcError string

fun handleEvent :: "proc_event \<Rightarrow> ComfyInstance \<Rightarrow> ComfyInstance" where
  "handleEvent (StdoutLine line) i =
     (if line = [] then i
      else (let i1 = i\<lparr>logs := logs i @ [line]\<rparr> in
        if str_includes line ''ERROR'' \<or> str_includes line ''error:'' \<or>
           str_includes line ''Exception'' \<or> str_includes line ''Traceback''
        then i1\<lparr>errors := errors i1 @ [line]\<rparr>
        else if str_includes line ''WARNING'' \<or> str_includes line ''WARN'' \<or>
                str_includes line ''warning:''
        then i1\<lparr>warnings := warnings i1 @ [line]\<rparr>
        else i1))"
| "handleEvent (StderrLine line) i =
     (if line = [] then i else i\<lparr>logs := logs i @ [line], errors := errors i @ [line]\<rparr>)"
| "handleEvent (Exit code signal) i =
     (case code of
        Some c \<Rightarrow>
          if c \<noteq> 0
          then i\<lparr>status := Error,
                 lastError := Some (''Process exited with code '' @ numToString c),
                 process := False\<rparr>
          else i\<lparr>status := Stopped, process := False\<rparr>
      | None \<Rightarrow> i\<lparr>status := Stopped, process := False\<rparr>)"
| "handleEvent (ProcError message) i =
     i\<lparr>status := Error, lastError := Some message,
       errors := errors i @ [''Process error: '' @ message]\<rparr>"

definition deliver :: "proc_event list \<Rightarrow> ComfyInstance \<Rightarrow> ComfyInstance" where
  "deliver evs i = fold handleEvent evs i"

section \<open>Stop\<close>

text \<open>
  What \<open>stopInstance\<close> asks of the operating system: whether \<open>taskkill\<close>, \<open>kill -TERM\<close> and
  \<open>kill -KILL\<close> exit with code 0 (a non-zero exit throws), and the answer of the \<open>i\<close>-th
  \<open>isProcessRunning\<close> call of the wait loop.
\<close>

record kill_world =
  taskkill_ok :: bool
  term_ok :: bool
  running_at :: "nat \<Rightarrow> bool"
  kill9_ok :: bool

text \<open>\<open>!instance.pid\<close>: the pid is \<open>undefined\<close> or 0.\<close>

definition pidFalsy :: "nat option \<Rightarrow> bool" where
  "pidFalsy p = (case p of None \<Rightarrow> True | Some n \<Rightarrow> n = 0)"

text \<open>The loop \<open>for (let i = 0; i < 10; i++)\<close>: \<open>k\<close> counts the iterations left.\<close>

fun waitForExit :: "(nat \<Rightarrow> bool) \<Rightarrow> nat \<Rightarrow> nat \<Rightarrow> bool" where
  "waitForExit running i 0 = False"
| "waitForExit running i (Suc k) = (if \<not> running i then True else waitForExit running (Suc i) k)"

definition stopInstance :: "platform \<Rightarrow> kill_world \<Rightarrow> ComfyUICli \<Rightarrow> string \<Rightarrow> bool \<times> ComfyUICli" where
  "stopInstance os kw cli instanceId =
     (case instances cli instanceId of
        None \<Rightarrow> (False, cli)
      | Some instance \<Rightarrow>
          if pidFalsy (pid instance) then (False, cli)
          else (let killed =
                  (if os = Windows then taskkill_ok kw
                   else if os = Linux \<or> os = MacOS then
                     (if term_ok kw
                      then (if waitForExit (running_at kw) 0 10 then True else kill9_ok kw)
                      else False)
                   else False)
                in (killed,
                    cli\<lparr>instances := (instances cli)(instanceId \<mapsto>
                      instance\<lparr>status := Stopped, process := False\<rparr>)\<rparr>)))"

section \<open>Readiness poll\<close>

datatype http_reply = HttpStatus nat | FetchFailed

text \<open>
  What one poll observes: the answer of the \<open>isProcessRunning\<close> call made in attempt \<open>k\<close>
  (after the loop, \<open>k\<close> is the number of attempts made), the reply to a GET issued in
  attempt \<open>k\<close>, and the child-process events handled while attempt \<open>k\<close> awaits its probes.
  The sleep between attempts has no effect on the state and is left out.
\<close>

record poll_world =
  proc_running :: "nat \<Rightarrow> bool"
  http_get :: "nat \<Rightarrow> string \<Rightarrow> http_reply"
  child_events :: "nat \<Rightarrow> proc_event list"

text \<open>A JavaScript number that bounds the loop: an integer, an infinity or \<open>NaN\<close>.\<close>

datatype jsnum = Num int | PosInf | NegInf | NaN

text \<open>\<open>Math.ceil(a / b)\<close> on two \<open>parseInt\<close> results.\<close>

definition ceilDiv :: "int option \<Rightarrow> int option \<Rightarrow> jsnum" where
  "ceilDiv x y =
     (case (x, y) of
        (Some a, Some b) \<Rightarrow>
          if b = 0 then (if a = 0 then NaN else if 0 < a then PosInf else NegInf)
          else Num (- ((- a) div b))
      | _ \<Rightarrow> NaN)"

text \<open>\<open>maxAttempts || Math.ceil(this.startupTimeout / this.checkInterval)\<close>.\<close>

definition effectiveAttempts :: "ComfyUICli \<Rightarrow> int option \<Rightarrow> jsnum" where
  "effectiveAttempts cli maxAttempts =
     (case maxAttempts of
        Some n \<Rightarrow> if n \<noteq> 0 then Num n else ceilDiv (startupTimeout cli) (checkInterval cli)
      | None \<Rightarrow> ceilDiv (startupTimeout cli) (checkInterval cli))"

text \<open>The loop test \<open>attempt < attempts\<close>.\<close>

fun js_lt :: "nat \<Rightarrow> jsnum \<Rightarrow> bool" where
  "js_lt k (Num n) = (int k < n)"
| "js_lt k PosInf = True"
| "js_lt k NegInf = False"
| "js_lt k NaN = False"

text \<open>\<open>isApiReady\<close>: the first endpoint that answers 2xx decides; a failed fetch is skipped.\<close>

fun probeEndpoints :: "(string \<Rightarrow> http_reply) \<Rightarrow> string \<Rightarrow> string list \<Rightarrow> bool" where
  "probeEndpoints get base [] = False"
| "probeEndpoints get base (endpoint # rest) =
     (case get (base @ endpoint) of
        HttpStatus code \<Rightarrow>
          if 200 \<le> code \<and> code \<le> 299 then True else probeEndpoints get base rest
      | FetchFailed \<Rightarrow> probeEndpoints get base rest)"

definition isApiReady :: "(string \<Rightarrow> http_reply) \<Rightarrow> ComfyInstance \<Rightarrow> bool" where
  "isApiReady get instance =
     probeEndpoints get (''http://'' @ host instance @ '':'' @ numToString (port instance))
       [''/system_stats'', ''/prompt'', ''/'']"

definition hasFatalErrors :: "string list \<Rightarrow> bool" where
  "hasFatalErrors errs =
     list_ex (\<lambda>err. str_includes err ''Error: Cannot find module'' \<or>
                     str_includes err ''ModuleNotFoundError'' \<or>
                     str_includes err ''Fatal error'' \<or>
                     str_includes err ''Could not find model'') errs"

text \<open>
  One pass through the loop body: \<open>Inl\<close> is a \<open>return\<close> from inside the loop, \<open>Inr\<close> the
  instance with which the next attempt starts.
\<close>

definition attemptOnce ::
  "poll_world \<Rightarrow> nat \<Rightarrow> ComfyInstance \<Rightarrow> (ready_result \<times> ComfyInstance) + ComfyInstance" where
  "attemptOnce pw attempt instance0 =
     (let instance = deliver (child_events pw attempt) instance0 in
      if \<not> pidFalsy (pid instance) \<and> \<not> proc_running pw attempt
      then Inl (\<lparr>ready = False, rstatus = ''error''\<rparr>,
                instance\<lparr>status := Error, lastError := Some ''Process not running''\<rparr>)
      else if isApiReady (http_get pw attempt) instance
      then Inl (\<lparr>ready = True, rstatus = ''running''\<rparr>, instance)
      else if hasFatalErrors (errors instance)
      then Inl (\<lparr>ready = False, rstatus = ''error''\<rparr>, instance\<lparr>status := Error\<rparr>)
      else Inr instance)"

text \<open>The code after the loop.\<close>

definition afterLoop :: "poll_world \<Rightarrow> nat \<Rightarrow> ComfyInstance \<Rightarrow> ready_result \<times> ComfyInstance" where
  "afterLoop pw k instance =
     (if \<not> pidFalsy (pid instance) \<and> proc_running pw k
      then (\<lparr>ready = False, rstatus = ''starting''\<rparr>, instance)
      else (\<lparr>ready = False, rstatus = ''error''\<rparr>,
            instance\<lparr>status := Error,
                     lastError := Some ''Process exited or API never became ready''\<rparr>))"

text \<open>
  The loop \<open>for (let attempt = 0; attempt < attempts; attempt++)\<close>. With an infinite bound
  it need not end, so the result is optional: \<open>None\<close> is a poll that never returns.
\<close>

partial_function (option) pollLoop ::
  "poll_world \<Rightarrow> jsnum \<Rightarrow> nat \<Rightarrow> ComfyInstance \<Rightarrow> (ready_result \<times> ComfyInstance) option" where
  "pollLoop pw attempts attempt instance =
     (if js_lt attempt attempts then
        (case attemptOnce pw attempt instance of
           Inl r \<Rightarrow> Some r
         | Inr instance' \<Rightarrow> pollLoop pw attempts (Suc attempt) instance')
      else Some (afterLoop pw attempt instance))"

definition isInstanceReady ::
  "poll_world \<Rightarrow> ComfyUICli \<Rightarrow> string \<Rightarrow> int option \<Rightarrow> (ready_result \<times> ComfyUICli) option" where
  "isInstanceReady pw cli instanceId maxAttempts =
     (let attempts = effectiveAttempts cli maxAttempts in
      case instances cli instanceId of
        None \<Rightarrow> Some (\<lparr>ready = False, rstatus = ''not_found''\<rparr>, cli)
      | Some instance \<Rightarrow>
          if status instance = Stopped \<or> status instance = Error
          then Some (\<lparr>ready = False, rstatus = statusString (status instance)\<rparr>, cli)
          else map_option
                 (\<lambda>(r, instance'). (r, cli\<lparr>instances := (instances cli)(instanceId \<mapsto> instance')\<rparr>))
                 (pollLoop pw attempts 0 instance))"

section \<open>Port allocator (\<open>portUtils.ts\<close>)\<close>

text \<open>
  \<open>server.listen(port)\<close> ends in the \<open>listening\<close> event, in the \<open>error\<close> event, or throws
  (a port outside the 16-bit range is rejected with a \<open>RangeError\<close> before any event).
\<close>

datatype listen_outcome = Listening | ErrorEvent | ListenThrows string

definition isPortAvailable :: "(int \<Rightarrow> listen_outcome) \<Rightarrow> int \<Rightarrow> string + bool" where
  "isPortAvailable listen p =
     (case listen p of
        Listening \<Rightarrow> Inr True
      | ErrorEvent \<Rightarrow> Inr False
      | ListenThrows e \<Rightarrow> Inl e)"

text \<open>
  The loop \<open>while (!(await isPortAvailable(port))) port++\<close> has no upper bound: \<open>None\<close> is a
  search that never returns, \<open>Some (Inl e)\<close> one that ends in a rejected promise.
\<close>

partial_function (option) findAvailablePort ::
  "(int \<Rightarrow> listen_outcome) \<Rightarrow> int \<Rightarrow> (string + int) option" where
  "findAvailablePort listen p =
     (case isPortAvailable listen p of
        Inl e \<Rightarrow> Some (Inl e)
      | Inr available \<Rightarrow> if \<not> available then findAvailablePort listen (p + 1) else Some (Inr p))"

section \<open>Job scheduler (\<open>routes/jobs\<close>)\<close>

text \<open>
  Rows of \<open>job_queue\<close> and \<open>comfy_instances\<close>; the status columns are text. \<open>createdAt\<close> is
  the stored integer timestamp; the \<open>updated_at\<close> columns are left out.
\<close>

record job_row =
  job_id :: string
  workflowData :: string
  priority :: int
  job_status :: string
  instanceId :: "string option"
  job_output :: "string option"
  job_error :: "string option"
  createdAt :: int

record instance_row =
  row_id :: string
  row_name :: string
  row_port :: int
  row_gpuIndices :: string
  row_status :: string
  row_pid :: "nat option"
  row_lastError :: "string option"

record sched_db =
  comfyInstances :: "instance_row list"
  jobQueue :: "job_row list"

text \<open>
  What the scheduler asks of its surroundings. \<open>curl\<close> is run without \<open>--fail\<close>: it exits
  with a non-zero code (the shell call throws, \<open>CurlFails\<close> carries \<open>String(error)\<close>) only
  when no HTTP response arrives, and otherwise prints the body whatever the status code.
  \<open>json_parse\<close> tells what \<open>JSON.parse\<close> does with a text: it throws (\<open>JsonThrows\<close> carries
  \<open>String(error)\<close>), or yields \<open>null\<close>, or yields another value. \<open>json_restringify\<close> is
  \<open>JSON.stringify(JSON.parse(s))\<close>, and \<open>null_read_error\<close> is \<open>String(error)\<close> of the
  \<open>TypeError\<close> that reading \<open>prompt_id\<close> off \<open>null\<close> throws.
\<close>

datatype curl_result = CurlFails string | CurlResponse nat string

datatype json_result = JsonThrows string | JsonNull | JsonValue

record sched_world =
  json_parse :: "string \<Rightarrow> json_result"
  json_restringify :: "string \<Rightarrow> string"
  curl_post :: "string \<Rightarrow> string option \<Rightarrow> curl_result"
  null_read_error :: string

text \<open>
  The \<open>try\<close> block of \<open>scheduleNextJob\<close>: \<open>Inl\<close> is \<open>String(error)\<close> of what it throws. The
  log line after the call reads \<open>response.prompt_id\<close>, which throws when the response is
  \<open>null\<close>.
\<close>

definition submitJob :: "sched_world \<Rightarrow> job_row \<Rightarrow> instance_row \<Rightarrow> string + unit" where
  "submitJob w job instance =
     (case json_parse w (workflowData job) of
        JsonThrows msg \<Rightarrow> Inl msg
      | _ \<Rightarrow>
          (case curl_post w (''http://localhost:'' @ numToString (row_port instance) @ ''/prompt'')
                  (Some (json_restringify w (workflowData job))) of
             CurlFails e \<Rightarrow> Inl e
           | CurlResponse code body \<Rightarrow>
               (case json_parse w body of
                  JsonThrows msg \<Rightarrow> Inl msg
                | JsonNull \<Rightarrow> Inl (null_read_error w)
                | JsonValue \<Rightarrow> Inr ())))"

text \<open>\<open>UPDATE job_queue SET ... WHERE id = ?\<close>.\<close>

definition updateJobs :: "string \<Rightarrow> (job_row \<Rightarrow> job_row) \<Rightarrow> job_row list \<Rightarrow> job_row list" where
  "updateJobs jid f jobs = map (\<lambda>j. if job_id j = jid then f j else j) jobs"

text \<open>
  \<open>ORDER BY priority DESC, created_at ASC LIMIT 1\<close> over the pending rows. Rows that agree
  on both columns come out in table order (the sort is stable); SQL leaves that order
  open.
\<close>

definition pendingJobs :: "job_row list \<Rightarrow> job_row list" where
  "pendingJobs jobs =
     take 1 (sort_key (\<lambda>j. (- priority j, createdAt j)) (filter (\<lambda>j. job_status j = ''pending'') jobs))"

definition availableInstances :: "sched_db \<Rightarrow> instance_row list" where
  "availableInstances db =
     (let runningInstances = filter (\<lambda>i. row_status i = ''running'') (comfyInstances db);
          busyInstanceIds = map instanceId (filter (\<lambda>j. job_status j = ''running'') (jobQueue db))
      in filter (\<lambda>instance. Some (row_id instance) \<notin> set busyInstanceIds) runningInstances)"

text \<open>
  One pass through the body of \<open>scheduleNextJob\<close> up to its recursive call: \<open>None\<close> when it
  returns early without pairing; otherwise the database it leaves, the pair it bound and
  whether the submission threw (and so whether the function calls itself again).
\<close>

definition dispatchOnce ::
  "sched_world \<Rightarrow> sched_db \<Rightarrow> (sched_db \<times> (job_row \<times> instance_row) \<times> bool) option" where
  "dispatchOnce w db =
     (case availableInstances db of
        [] \<Rightarrow> None
      | instance # _ \<Rightarrow>
          (case pendingJobs (jobQueue db) of
             [] \<Rightarrow> None
           | job # _ \<Rightarrow>
               (let db1 = db\<lparr>jobQueue := updateJobs (job_id job)
                            (\<lambda>j. j\<lparr>job_status := ''running'', instanceId := Some (row_id instance)\<rparr>)
                            (jobQueue db)\<rparr>
                in case submitJob w job instance of
                     Inr _ \<Rightarrow> Some (db1, (job, instance), False)
                   | Inl err \<Rightarrow>
                       Some (db1\<lparr>jobQueue := updateJobs (job_id job)
                               (\<lambda>j. j\<lparr>job_status := ''failed'', job_error := Some err\<rparr>)
                               (jobQueue db1)\<rparr>,
                             (job, instance), True))))"

definition pendingCount :: "sched_db \<Rightarrow> nat" where
  "pendingCount db = length (filter (\<lambda>j. job_status j = ''pending'') (jobQueue db))"

text \<open>
  \<open>scheduleNextJob\<close>: the final database and the pairs (job, worker) it bound, in order.
  The source does not await its recursive call; the model runs it to its end.
\<close>

function scheduleNextJob ::
  "sched_world \<Rightarrow> sched_db \<Rightarrow> sched_db \<times> (job_row \<times> instance_row) list" where
  "scheduleNextJob w db =
     (case dispatchOnce w db of
        None \<Rightarrow> (db, [])
      | Some (db', pair, threw) \<Rightarrow>
          if threw then (case scheduleNextJob w db' of (db'', pairs) \<Rightarrow> (db'', pair # pairs))
          else (db', [pair]))"
  by pat_completeness auto
termination
proof (relation "measure (\<lambda>(w, db). pendingCount db)")
  show "wf (measure (\<lambda>(w, db). pendingCount db))" by simp
next
  fix w db x2 db' x2a pair threw
  assume "dispatchOnce w db = Some x2" "(db', x2a) = x2" "(pair, threw) = x2a" "threw"
  then have d: "dispatchOnce w db = Some (db', pair, True)" by simp
  let ?pending = "\<lambda>j. job_status j = ''pending''"
  from d obtain inst insts job rest err where
    av: "availableInstances db = inst # insts" and
    pj: "pendingJobs (jobQueue db) = job # rest" and
    db': "jobQueue db' = updateJobs (job_id job)
            (\<lambda>j. j\<lparr>job_status := ''failed'', job_error := Some err\<rparr>)
            (updateJobs (job_id job)
              (\<lambda>j. j\<lparr>job_status := ''running'', instanceId := Some (row_id inst)\<rparr>)
              (jobQueue db))"
    by (auto simp: dispatchOnce_def Let_def split: list.splits sum.splits)
  have "job \<in> set (pendingJobs (jobQueue db))" using pj by simp
  then have "job \<in> set (sort_key (\<lambda>j. (- priority j, createdAt j)) (filter ?pending (jobQueue db)))"
    unfolding pendingJobs_def by (rule in_set_takeD)
  then have mem: "job \<in> set (filter ?pending (jobQueue db))" by simp
  have gone: "filter ?pending (updateJobs jid f jobs) =
              filter (\<lambda>j. ?pending j \<and> job_id j \<noteq> jid) jobs"
    if "\<And>j. job_status (f j) \<noteq> ''pending''" for f jid and jobs :: "job_row list"
    using that by (induction jobs) (auto simp: updateJobs_def)
  have kept: "filter (\<lambda>j. ?pending j \<and> job_id j \<noteq> jid) (updateJobs jid f jobs) =
              filter (\<lambda>j. ?pending j \<and> job_id j \<noteq> jid) jobs"
    if "\<And>j. job_id (f j) = job_id j" for f jid and jobs :: "job_row list"
    using that by (induction jobs) (auto simp: updateJobs_def)
  have "filter ?pending (jobQueue db') =
        filter (\<lambda>j. job_id j \<noteq> job_id job) (filter ?pending (jobQueue db))"
    unfolding db' by (subst gone, simp, subst kept, simp, simp)
  then have "pendingCount db' < pendingCount db"
    unfolding pendingCount_def
    using mem length_filter_less[of job "filter ?pending (jobQueue db)" "\<lambda>j. job_id j \<noteq> job_id job"]
    by simp
  then show "((w, db'), (w, db)) \<in> measure (\<lambda>(w, db). pendingCount db)" by simp
qed

declare scheduleNextJob.simps [simp del]

text \<open>
  The cancel route. \<open>returning()\<close> yields the rows as the update left them; the reply is
  the first of them, or 404 when no row matched. The last component lists the URLs of the
  interrupt requests issued (a failing request is caught and logged).
\<close>

datatype cancel_reply = CancelOk job_row | CancelNotFound

definition cancelJob :: "sched_db \<Rightarrow> string \<Rightarrow> cancel_reply \<times> sched_db \<times> string list" where
  "cancelJob db jid =
     (let matches = (\<lambda>j. job_id j = jid \<and> (job_status j = ''pending'' \<or> job_status j = ''running''));
          result = map (\<lambda>j. j\<lparr>job_status := ''cancelled''\<rparr>) (filter matches (jobQueue db));
          db' = db\<lparr>jobQueue := map (\<lambda>j. if matches j then j\<lparr>job_status := ''cancelled''\<rparr> else j)
                                  (jobQueue db)\<rparr>
      in case result of
           [] \<Rightarrow> (CancelNotFound, db, [])
         | r # _ \<Rightarrow>
             (CancelOk r, db',
              if job_status r = ''running'' \<and> (case instanceId r of None \<Rightarrow> False | Some i \<Rightarrow> i \<noteq> [])
              then (case filter (\<lambda>i. Some (row_id i) = instanceId r) (comfyInstances db') of
                      [] \<Rightarrow> []
                    | inst # _ \<Rightarrow>
                        if row_port inst \<noteq> 0
                        then [''http://localhost:'' @ numToString (row_port inst) @ ''/interrupt'']
                        else [])
              else []))"

text \<open>
  What can happen to the queue between two runs of the scheduler without adding a pending
  row: the scheduler itself, the cancel route, and any change of the worker table by the
  instance routes.
\<close>

datatype sched_event = Dispatch | Cancel string | Workers "instance_row list"

fun runEvents ::
  "sched_world \<Rightarrow> sched_event list \<Rightarrow> sched_db \<Rightarrow> sched_db \<times> (job_row \<times> instance_row) list" where
  "runEvents w [] db = (db, [])"
| "runEvents w (Dispatch # evs) db =
     (case scheduleNextJob w db of
        (db1, pairs) \<Rightarrow> (case runEvents w evs db1 of (db2, pairs') \<Rightarrow> (db2, pairs @ pairs')))"
| "runEvents w (Cancel jid # evs) db = runEvents w evs (fst (snd (cancelJob db jid)))"
| "runEvents w (Workers rows # evs) db = runEvents w evs (db\<lparr>comfyInstances := rows\<rparr>)"

section \<open>Metric sampler (\<open>monitoring.ts\<close>)\<close>

text \<open>
  \<open>parseInt\<close> with no radix: leading white space and a sign are skipped, a \<open>0x\<close> prefix
  selects base 16, and the longest run of digits is read; \<open>None\<close> is \<open>NaN\<close>.
\<close>

definition digitOf :: "nat \<Rightarrow> char \<Rightarrow> nat option" where
  "digitOf radix c =
     (case map_of (zip ''0123456789'' [0, 1, 2, 3, 4, 5, 6, 7, 8, 9]) c of
        Some d \<Rightarrow> Some d
      | None \<Rightarrow>
          if radix = 16
          then map_of (zip ''abcdefABCDEF'' [10, 11, 12, 13, 14, 15, 10, 11, 12, 13, 14, 15]) c
          else None)"

fun parseDigits :: "nat \<Rightarrow> string \<Rightarrow> nat option \<Rightarrow> nat option" where
  "parseDigits radix [] acc = acc"
| "parseDigits radix (c # cs) acc =
     (case digitOf radix c of
        None \<Rightarrow> acc
      | Some d \<Rightarrow> parseDigits radix cs (Some ((case acc of None \<Rightarrow> 0 | Some a \<Rightarrow> a) * radix + d)))"

definition parseInt :: "string \<Rightarrow> int option" where
  "parseInt s =
     (let s1 = dropWhile isSpace s;
          negative = (case s1 of [] \<Rightarrow> False | c # _ \<Rightarrow> c = CHR ''-'');
          s2 = (case s1 of [] \<Rightarrow> [] | c # t \<Rightarrow> if c = CHR ''-'' \<or> c = CHR ''+'' then t else s1);
          hex = (case s2 of a # b # _ \<Rightarrow> a = CHR ''0'' \<and> (b = CHR ''x'' \<or> b = CHR ''X'') | _ \<Rightarrow> False);
          digits = (if hex then drop 2 s2 else s2)
      in map_option (\<lambda>n. if negative then - int n else int n)
           (parseDigits (if hex then 16 else 10) digits None))"

text \<open>
  A device of the inventory, with the fields the sampler reads. A field that \<open>parseInt\<close>
  left \<open>NaN\<close> or that the platform does not report is \<open>None\<close>.
\<close>

record gpu_device =
  dev_index :: "int option"
  dev_name :: string
  memoryUsed :: "int option"
  memoryTotal :: "int option"
  utilization :: "int option"

record system_metrics =
  cpuUtilization :: "real option"
  ramUsed :: "int option"

record metric_row =
  m_instanceId :: string
  m_gpuIndex :: int
  m_vramUsed :: "int option"
  m_vramTotal :: "int option"
  m_gpuUtilization :: "int option"
  m_ramUsed :: "int option"
  m_cpuUtilization :: "real option"

text \<open>\<open>instance.gpuIndices.split(',').map((idx) => parseInt(idx.trim()))\<close>.\<close>

definition selectorIndices :: "string \<Rightarrow> int option list" where
  "selectorIndices selector = map (\<lambda>idx. parseInt (trim idx)) (splitOn CHR '','' selector)"

text \<open>\<open>devices.find((device) => device.index === gpuIndex)\<close>; \<open>NaN\<close> equals nothing.\<close>

definition findDevice :: "gpu_device list \<Rightarrow> int option \<Rightarrow> gpu_device option" where
  "findDevice devices gpuIndex =
     (case gpuIndex of
        None \<Rightarrow> None
      | Some g \<Rightarrow> find (\<lambda>device. dev_index device = Some g) devices)"

text \<open>\<open>x || 0\<close> on a number that may be missing.\<close>

definition orZero :: "int option \<Rightarrow> int option" where
  "orZero x = (case x of None \<Rightarrow> Some 0 | Some v \<Rightarrow> Some v)"

text \<open>
  The inner loop over the parsed indices of one worker and the outer loop over the
  workers; \<open>rows\<close> is the table \<open>resource_metrics\<close>, extended by every insert. \<open>fill\<close> is
  the treatment of a device field: the identity in the first version of the sampler,
  \<open>orZero\<close> in the second.
\<close>

fun insertForIndices ::
  "(int option \<Rightarrow> int option) \<Rightarrow> gpu_device list \<Rightarrow> system_metrics \<Rightarrow> string \<Rightarrow>
     int option list \<Rightarrow> metric_row list \<Rightarrow> metric_row list" where
  "insertForIndices fill devices sys iid [] rows = rows"
| "insertForIndices fill devices sys iid (gpuIndex # rest) rows =
     (case findDevice devices gpuIndex of
        None \<Rightarrow> insertForIndices fill devices sys iid rest rows
      | Some device \<Rightarrow>
          insertForIndices fill devices sys iid rest
            (rows @ [\<lparr>m_instanceId = iid,
                       m_gpuIndex = (case gpuIndex of None \<Rightarrow> 0 | Some g \<Rightarrow> g),
                       m_vramUsed = fill (memoryUsed device),
                       m_vramTotal = fill (memoryTotal device),
                       m_gpuUtilization = fill (utilization device),
                       m_ramUsed = ramUsed sys,
                       m_cpuUtilization = cpuUtilization sys\<rparr>]))"

fun insertForInstances ::
  "(int option \<Rightarrow> int option) \<Rightarrow> gpu_device list \<Rightarrow> system_metrics \<Rightarrow>
     instance_row list \<Rightarrow> metric_row list \<Rightarrow> metric_row list" where
  "insertForInstances fill devices sys [] rows = rows"
| "insertForInstances fill devices sys (inst # rest) rows =
     insertForInstances fill devices sys rest
       (insertForIndices fill devices sys (row_id inst) (selectorIndices (row_gpuIndices inst)) rows)"

text \<open>
  \<open>recordMetrics\<close> of the sampler that reads the inventory from \<open>nvidia-smi\<close> (the file
  \<open>monitoring.ts\<close> with its own \<open>getGPUMetrics\<close>): \<open>devices\<close> and \<open>sys\<close> are what
  \<open>getGPUMetrics\<close> and \<open>getSystemMetrics\<close> return in this tick.
\<close>

definition recordMetrics_smi ::
  "gpu_device list \<Rightarrow> system_metrics \<Rightarrow> instance_row list \<Rightarrow> metric_row list \<Rightarrow> metric_row list" where
  "recordMetrics_smi devices sys workers rows =
     (let running = filter (\<lambda>i. row_status i = ''running'') workers in
      if length running = 0 then rows
      else insertForInstances (\<lambda>x. x) devices sys running rows)"

text \<open>
  \<open>recordMetrics\<close> of the sampler built on \<open>platformUtils\<close>: it returns early when the
  config store has no \<open>COMFYUI_PATH\<close>, and asks \<open>getGPUInfo\<close> for the inventory of that
  install path.
\<close>

definition recordMetrics ::
  "(string \<Rightarrow> gpu_device list) \<Rightarrow> system_metrics \<Rightarrow> (string \<rightharpoonup> env_row) \<Rightarrow>
     instance_row list \<Rightarrow> metric_row list \<Rightarrow> metric_row list" where
  "recordMetrics getGPUInfo sys config workers rows =
     (let running = filter (\<lambda>i. row_status i = ''running'') workers in
      if length running = 0 then rows
      else (case config ''COMFYUI_PATH'' of
              None \<Rightarrow> rows
            | Some row \<Rightarrow> insertForInstances orZero (getGPUInfo (ev_value row)) sys running rows))"

section \<open>The argument builder as the specification words it\<close>


section \<open>State reached by inconclusive attempts\<close>

text \<open>
  The instance with which attempt \<open>j + m\<close> of a poll starts when the \<open>m\<close> attempts from
  \<open>j\<close> on were all inconclusive: each has handled the child events of its turn.
\<close>

fun instFrom :: "poll_world \<Rightarrow> nat \<Rightarrow> nat \<Rightarrow> ComfyInstance \<Rightarrow> ComfyInstance" where
  "instFrom pw j 0 i = i"
| "instFrom pw j (Suc m) i = instFrom pw (Suc j) m (deliver (child_events pw j) i)"

section \<open>The dispatch order\<close>

text \<open>
  \<open>jobBefore a b\<close>: job \<open>a\<close> comes strictly before job \<open>b\<close> in the order
  \<open>priority DESC, created_at ASC\<close>, that is, \<open>(-priority, +created_at)\<close> of \<open>a\<close> is
  lexicographically smaller. \<open>pendingRows\<close> is the set of pending rows of the queue.
\<close>

definition jobBefore :: "job_row \<Rightarrow> job_row \<Rightarrow> bool" where
  "jobBefore a b =
     (priority b < priority a \<or> (priority a = priority b \<and> createdAt a < createdAt b))"

definition pendingRows :: "sched_db \<Rightarrow> job_row set" where
  "pendingRows db = {j \<in> set (jobQueue db). job_status j = ''pending''}"

section \<open>Example inputs\<close>

definition ex_py_world :: py_world where
  "ex_py_world =
     \<lparr>isWin32 = False,
      glob_scan = (\<lambda>pattern dir. Some [''/opt/comfy/venv/bin/python'']),
      existsSync = (\<lambda>path. True),
      run_version = (\<lambda>path. Some ''Python 3.11.4''),
      which_python = Some ''/usr/bin/python3''\<rparr>"

definition ex_py_offline :: py_world where
  "ex_py_offline =
     \<lparr>isWin32 = False,
      glob_scan = (\<lambda>pattern dir. None),
      existsSync = (\<lambda>path. False),
      run_version = (\<lambda>path. None),
      which_python = None\<rparr>"

definition ex_py_state :: py_state where
  "ex_py_state = \<lparr>pythonPathCache = Map.empty, envVars = Map.empty, scan_count = 0, db_reads = 0\<rparr>"

definition ex_py_state1 :: py_state where
  "ex_py_state1 =
     \<lparr>pythonPathCache = [''/opt/comfy'' \<mapsto> ''/opt/comfy/venv/bin/python''],
      envVars = [''PYTHON_PATH'' \<mapsto>
        \<lparr>ev_value = ''/opt/comfy/venv/bin/python'',
         ev_description = Some ''Automatically detected virtual environment (Python 3.11.4)''\<rparr>],
      scan_count = 1, db_reads = 1\<rparr>"

definition ex_cli :: ComfyUICli where
  "ex_cli = \<lparr>comfyuiPath = ''/opt/comfy'', pythonPath = None, initialized = False,
             instances = Map.empty, startupTimeout = Some 120000, checkInterval = Some 3000\<rparr>"

definition ex_poll_world :: poll_world where
  "ex_poll_world = \<lparr>proc_running = (\<lambda>k. True), http_get = (\<lambda>k url. FetchFailed),
                    child_events = (\<lambda>k. [])\<rparr>"

definition ex_kill_world :: kill_world where
  "ex_kill_world = \<lparr>taskkill_ok = True, term_ok = True, running_at = (\<lambda>i. False), kill9_ok = True\<rparr>"

definition ex_ports_taken :: "int \<Rightarrow> listen_outcome" where
  "ex_ports_taken p = (if p < 65536 then ErrorEvent else ListenThrows ''ERR_SOCKET_BAD_PORT'')"

definition ex_ports :: "int \<Rightarrow> listen_outcome" where
  "ex_ports p =
     (if p = 8188 \<or> p = 8189 then ErrorEvent
      else if p < 65536 then Listening
      else ListenThrows ''ERR_SOCKET_BAD_PORT'')"

definition ex_spawn :: "spawn_request \<Rightarrow> spawn_outcome" where
  "ex_spawn req = Spawned (Some 4242)"

definition ex_options :: ComfyUIOptions where
  "ex_options = [(''port'', VNum 8190), (''lowvram'', VBool True)]"

definition ex_cli_initialized :: ComfyUICli where
  "ex_cli_initialized =
     \<lparr>comfyuiPath = ''/opt/comfy'', pythonPath = Some ''/opt/comfy/venv/bin/python'',
      initialized = True, instances = Map.empty,
      startupTimeout = Some 120000, checkInterval = Some 3000\<rparr>"

definition ex_starting :: ComfyInstance where
  "ex_starting =
     \<lparr>inst_id = ''w1'', process = True, port = 8190, host = ''127.0.0.1'', gpuIndices = ''cpu'',
      options = [], status = Starting, pid = Some 4242, logs = [], errors = [],
      warnings = [], lastError = None\<rparr>"

definition ex_cli_starting :: ComfyUICli where
  "ex_cli_starting =
     \<lparr>comfyuiPath = ''/opt/comfy'', pythonPath = Some ''/opt/comfy/venv/bin/python'',
      initialized = True, instances = [''w1'' \<mapsto> ex_starting],
      startupTimeout = Some 10000, checkInterval = Some 3000\<rparr>"

definition ex_poll_fatal :: poll_world where
  "ex_poll_fatal = \<lparr>proc_running = (\<lambda>k. True), http_get = (\<lambda>k url. FetchFailed),
                    child_events = (\<lambda>k. if k = 1 then [StderrLine ''ModuleNotFoundError: foo''] else [])\<rparr>"

definition ex_devices :: "gpu_device list" where
  "ex_devices =
     [\<lparr>dev_index = Some 0, dev_name = ''GPU-A'', memoryUsed = Some 1024, memoryTotal = Some 8192,
       utilization = Some 25\<rparr>,
      \<lparr>dev_index = Some 1, dev_name = ''GPU-B'', memoryUsed = None, memoryTotal = Some 8192,
       utilization = Some 0\<rparr>]"

definition ex_sys :: system_metrics where
  "ex_sys = \<lparr>cpuUtilization = Some (25 / 2), ramUsed = Some 4096\<rparr>"

definition ex_worker :: instance_row where
  "ex_worker = \<lparr>row_id = ''W'', row_name = ''worker'', row_port = 8190, row_gpuIndices = ''0,1'',
                row_status = ''running'', row_pid = Some 4242, row_lastError = None\<rparr>"

definition ex_cpu_worker :: instance_row where
  "ex_cpu_worker = \<lparr>row_id = ''C'', row_name = ''cpu worker'', row_port = 8191, row_gpuIndices = ''cpu'',
                    row_status = ''running'', row_pid = Some 4243, row_lastError = None\<rparr>"

definition ex_config :: "string \<rightharpoonup> env_row" where
  "ex_config = [''COMFYUI_PATH'' \<mapsto> \<lparr>ev_value = ''/opt/comfy'', ev_description = None\<rparr>]"

definition ex_job1 :: job_row where
  "ex_job1 = \<lparr>job_id = ''J1'', workflowData = ''{}'', priority = 0, job_status = ''pending'',
              instanceId = None, job_output = None, job_error = None, createdAt = 100\<rparr>"

definition ex_job2 :: job_row where
  "ex_job2 = \<lparr>job_id = ''J2'', workflowData = ''{}'', priority = 10, job_status = ''pending'',
              instanceId = None, job_output = None, job_error = None, createdAt = 200\<rparr>"

definition ex_worker2 :: instance_row where
  "ex_worker2 = \<lparr>row_id = ''W2'', row_name = ''second worker'', row_port = 8192, row_gpuIndices = ''1'',
                 row_status = ''running'', row_pid = Some 4244, row_lastError = None\<rparr>"

definition ex_queue :: sched_db where
  "ex_queue = \<lparr>comfyInstances = [ex_worker], jobQueue = [ex_job1, ex_job2]\<rparr>"

definition ex_queue2 :: sched_db where
  "ex_queue2 = \<lparr>comfyInstances = [ex_worker, ex_worker2], jobQueue = [ex_job1, ex_job2]\<rparr>"

definition ex_json :: "string \<Rightarrow> json_result" where
  "ex_json s = (if s = ''{}'' then JsonValue
                else JsonThrows ''SyntaxError: JSON Parse error: Unexpected identifier'')"

definition ex_world_echo :: sched_world where
  "ex_world_echo =
     \<lparr>json_parse = ex_json, json_restringify = (\<lambda>s. s),
      curl_post = (\<lambda>url body. CurlResponse 200 (case body of None \<Rightarrow> [] | Some b \<Rightarrow> b)),
      null_read_error = ''TypeError: null is not an object''\<rparr>"

definition ex_world_down :: sched_world where
  "ex_world_down =
     \<lparr>json_parse = ex_json, json_restringify = (\<lambda>s. s),
      curl_post = (\<lambda>url body. CurlFails ''ShellError: Failed with exit code 7''),
      null_read_error = ''TypeError: null is not an object''\<rparr>"

definition ex_job2_running :: job_row where
  "ex_job2_running = ex_job2\<lparr>job_status := ''running'', instanceId := Some ''W''\<rparr>"

definition ex_job1_running :: job_row where
  "ex_job1_running = ex_job1\<lparr>job_status := ''running'', instanceId := Some ''W2''\<rparr>"

definition ex_job2_failed :: job_row where
  "ex_job2_failed = ex_job2\<lparr>job_status := ''failed'', instanceId := Some ''W'',
                             job_error := Some ''ShellError: Failed with exit code 7''\<rparr>"

definition ex_job1_failed :: job_row where
  "ex_job1_failed = ex_job1\<lparr>job_status := ''failed'', instanceId := Some ''W'',
                             job_error := Some ''ShellError: Failed with exit code 7''\<rparr>"

definition ex_bound :: sched_db where
  "ex_bound = \<lparr>comfyInstances = [ex_worker], jobQueue = [ex_job1, ex_job2_running]\<rparr>"

section \<open>Verified properties\<close>

subsection \<open>Argument builder\<close>






subsection \<open>Runtime locator cache\<close>

text \<open>
  C9. Whatever the first \<open>getPythonPath(install_path)\<close> did, it has stored its answer in
  the cache under \<open>install_path\<close> and has run the disk scan at most once; a second call
  with the same path returns that answer and leaves the whole state as it was, counters
  included: no scan, no read of the config store, in any surroundings.
\<close>

theorem locate_cached_after_first_call:
  assumes "getPythonPath w1 path st = (p1, st1)"
  shows "getPythonPath w2 path st1 = (p1, st1) \<and>
         pythonPathCache st1 path = Some p1 \<and>
         scan_count st1 \<le> Suc (scan_count st) \<and>
         db_reads st1 \<le> Suc (db_reads st)"
proof -
  have c: "pythonPathCache st1 path = Some p1 \<and> scan_count st1 \<le> Suc (scan_count st) \<and>
           db_reads st1 \<le> Suc (db_reads st)"
    using assms
    by (auto simp: getPythonPath_def detectVenv_def systemFallback_def Let_def
             split: option.splits if_splits)
  then show ?thesis by (simp add: getPythonPath_def)
qed

theorem locate_cached_after_first_call_witness:
  "getPythonPath ex_py_world ''/opt/comfy'' ex_py_state =
     (''/opt/comfy/venv/bin/python'', ex_py_state1) \<and>
   getPythonPath ex_py_offline ''/opt/comfy'' ex_py_state1 =
     (''/opt/comfy/venv/bin/python'', ex_py_state1) \<and>
   scan_count ex_py_state1 \<le> Suc (scan_count ex_py_state)"
proof -
  have h: "getPythonPath ex_py_world ''/opt/comfy'' ex_py_state =
             (''/opt/comfy/venv/bin/python'', ex_py_state1)"
    by (simp add: getPythonPath_def detectVenv_def findPythonInVenv_def validatePython_def
                  detectedRow_def ex_py_world_def ex_py_state_def ex_py_state1_def Let_def
                  toLowerCase_def lowerChar_def trim_def isSpace_def)
  show ?thesis
    using h locate_cached_after_first_call[OF h, of ex_py_offline] by simp
qed

subsection \<open>Unknown worker ids\<close>

text \<open>
  C10. For a worker id that is not in the instance map, the log, error and warning
  accessors return the empty list, the readiness poll returns
  \<open>{ready: false, status: "not_found"}\<close> and \<open>stopInstance\<close> returns \<open>false\<close>; none of them
  changes the manager's state.
\<close>

theorem unknown_worker_is_benign:
  assumes "instances cli wid = None"
  shows "getInstanceLogs cli wid limit = [] \<and>
         getInstanceErrors cli wid = [] \<and>
         getInstanceWarnings cli wid = [] \<and>
         isInstanceReady pw cli wid maxAttempts =
           Some (\<lparr>ready = False, rstatus = ''not_found''\<rparr>, cli) \<and>
         stopInstance os kw cli wid = (False, cli)"
  using assms
  by (simp add: getInstanceLogs_def getInstanceErrors_def getInstanceWarnings_def
                isInstanceReady_def stopInstance_def)

theorem unknown_worker_is_benign_witness:
  "instances ex_cli ''w-404'' = None \<and>
   getInstanceLogs ex_cli ''w-404'' None = [] \<and>
   getInstanceErrors ex_cli ''w-404'' = [] \<and>
   getInstanceWarnings ex_cli ''w-404'' = [] \<and>
   isInstanceReady ex_poll_world ex_cli ''w-404'' None =
     Some (\<lparr>ready = False, rstatus = ''not_found''\<rparr>, ex_cli) \<and>
   stopInstance Linux ex_kill_world ex_cli ''w-404'' = (False, ex_cli)"
proof -
  have h: "instances ex_cli ''w-404'' = None" by (simp add: ex_cli_def)
  show ?thesis
    using h unknown_worker_is_benign[OF h, of None ex_poll_world None Linux ex_kill_world]
    by simp
qed

subsection \<open>Port allocator\<close>

lemma findAvailablePort_found:
  assumes "listen p = Listening" "\<forall>q. base \<le> q \<and> q < p \<longrightarrow> listen q = ErrorEvent" "base \<le> p"
  shows "findAvailablePort listen base = Some (Inr p)"
  using assms
proof (induction "nat (p - base)" arbitrary: base)
  case 0
  then have "base = p" by simp
  then show ?case using "0.prems"(1)
    by (subst findAvailablePort.simps) (simp add: isPortAvailable_def)
next
  case (Suc k)
  then have lt: "base < p" by linarith
  then have eb: "listen base = ErrorEvent" using Suc.prems(2) by simp
  have k: "k = nat (p - (base + 1))" using Suc.hyps(2) by linarith
  have rec: "findAvailablePort listen (base + 1) = Some (Inr p)"
    using Suc.hyps(1)[OF k Suc.prems(1)] Suc.prems(2) lt by simp
  show ?case
    by (subst findAvailablePort.simps) (simp add: isPortAvailable_def eb rec)
qed

lemma findAvailablePort_sound:
  assumes "findAvailablePort listen base = Some y"
  shows "\<forall>p. y = Inr p \<longrightarrow>
           base \<le> p \<and> listen p = Listening \<and> (\<forall>q. base \<le> q \<and> q < p \<longrightarrow> listen q = ErrorEvent)"
proof (rule findAvailablePort.raw_induct[where P = "\<lambda>listen base y. \<forall>p. y = Inr p \<longrightarrow>
           base \<le> p \<and> listen p = Listening \<and> (\<forall>q. base \<le> q \<and> q < p \<longrightarrow> listen q = ErrorEvent)",
         OF _ assms])
  fix f :: "(int \<Rightarrow> listen_outcome) \<Rightarrow> int \<Rightarrow> (string + int) option"
  fix listen :: "int \<Rightarrow> listen_outcome" and base :: int and y :: "string + int"
  assume IH: "\<And>l b y. f l b = Some y \<Longrightarrow> \<forall>p. y = Inr p \<longrightarrow>
           b \<le> p \<and> l p = Listening \<and> (\<forall>q. b \<le> q \<and> q < p \<longrightarrow> l q = ErrorEvent)"
  assume eq: "(case isPortAvailable listen base of Inl e \<Rightarrow> Some (Inl e)
      | Inr available \<Rightarrow> if \<not> available then f listen (base + 1) else Some (Inr base)) = Some y"
  show "\<forall>p. y = Inr p \<longrightarrow>
           base \<le> p \<and> listen p = Listening \<and> (\<forall>q. base \<le> q \<and> q < p \<longrightarrow> listen q = ErrorEvent)"
  proof (cases "listen base")
    case Listening
    then show ?thesis using eq by (auto simp: isPortAvailable_def)
  next
    case ErrorEvent
    then have "f listen (base + 1) = Some y" using eq by (simp add: isPortAvailable_def)
    from IH[OF this] have r: "\<forall>p. y = Inr p \<longrightarrow>
           base + 1 \<le> p \<and> listen p = Listening \<and> (\<forall>q. base + 1 \<le> q \<and> q < p \<longrightarrow> listen q = ErrorEvent)" .
    show ?thesis
    proof (intro allI impI)
      fix p assume yp: "y = Inr p"
      from r yp have a: "base + 1 \<le> p" and b: "listen p = Listening"
        and c: "\<forall>q. base + 1 \<le> q \<and> q < p \<longrightarrow> listen q = ErrorEvent" by auto
      have "\<forall>q. base \<le> q \<and> q < p \<longrightarrow> listen q = ErrorEvent"
      proof (intro allI impI)
        fix q assume q: "base \<le> q \<and> q < p"
        show "listen q = ErrorEvent"
        proof (cases "q = base")
          case True then show ?thesis using ErrorEvent by simp
        next
          case False
          then have "base + 1 \<le> q" using q by linarith
          then show ?thesis using c q by simp
        qed
      qed
      then show "base \<le> p \<and> listen p = Listening \<and> (\<forall>q. base \<le> q \<and> q < p \<longrightarrow> listen q = ErrorEvent)"
        using a b by simp
    qed
  next
    case (ListenThrows e)
    then show ?thesis using eq by (auto simp: isPortAvailable_def)
  qed
qed

text \<open>
  C7 (as amended). \<open>findAvailablePort(base)\<close> returns the port \<open>p\<close> exactly when \<open>p \<ge> base\<close>
  binds (\<open>server.listen(p)\<close> reaches \<open>listening\<close>) and every port in \<open>[base, p)\<close> failed to
  bind with the \<open>error\<close> event: it returns the first free port at or above \<open>base\<close> when
  there is one, and returns no port otherwise.
\<close>

theorem findAvailablePort_first_free:
  "findAvailablePort listen base = Some (Inr p) \<longleftrightarrow>
     base \<le> p \<and> listen p = Listening \<and> (\<forall>q. base \<le> q \<and> q < p \<longrightarrow> listen q = ErrorEvent)"
  using findAvailablePort_found[of listen p base] findAvailablePort_sound[of listen base "Inr p"]
  by blast

theorem findAvailablePort_first_free_witness:
  "findAvailablePort ex_ports 8188 = Some (Inr 8190) \<and> (8188::int) \<le> 8190 \<and>
   ex_ports 8190 = Listening \<and> ex_ports 8188 = ErrorEvent \<and> ex_ports 8189 = ErrorEvent"
proof -
  have h: "(8188::int) \<le> 8190 \<and> ex_ports 8190 = Listening \<and>
           (\<forall>q. 8188 \<le> q \<and> q < 8190 \<longrightarrow> ex_ports q = ErrorEvent)"
    by (auto simp: ex_ports_def)
  show ?thesis
    using h findAvailablePort_first_free[of ex_ports 8188 8190]
    by (simp add: ex_ports_def)
qed

text \<open>
  With the ports 65534 and 65535 taken, the search from 65534 leaves the port range and
  ends in the error of \<open>listen(65536)\<close>: it terminates without returning a port.
\<close>

theorem findAvailablePort_exhausted_counterexample:
  "findAvailablePort ex_ports_taken 65534 = Some (Inl ''ERR_SOCKET_BAD_PORT'')"
  apply (subst findAvailablePort.simps, simp add: isPortAvailable_def ex_ports_taken_def)
  apply (subst findAvailablePort.simps, simp add: isPortAvailable_def ex_ports_taken_def)
  apply (subst findAvailablePort.simps, simp add: isPortAvailable_def ex_ports_taken_def)
  done

subsection \<open>Launch\<close>

lemma launchInstance_never_returns:
  "fst (launchInstance w os spawn wid opts cs) = Inl (ReferenceError ''process'') \<and>
   instances (fst (snd (launchInstance w os spawn wid opts cs))) = instances (fst cs)"
  by (cases cs)
     (auto simp: launchInstance_def readBinding_def initialize_def Let_def
           split: prod.splits option.splits)

text \<open>
  C3. Launching worker \<open>w1\<close> on Linux with the options \<open>{port: 8190, lowvram: true}\<close>, in
  surroundings where the interpreter is found and \<open>spawn\<close> would hand back a child with pid
  4242: the call resolves the interpreter and then throws the \<open>ReferenceError\<close> on
  \<open>process\<close> before \<open>spawn\<close> is called. No child is spawned, no pid is captured, and no
  instance is stored, neither as \<open>starting\<close> nor otherwise.
\<close>

theorem launch_throws_before_spawn:
  "launchInstance ex_py_world Linux ex_spawn ''w1'' ex_options (ex_cli, ex_py_state) =
     (Inl (ReferenceError ''process''), ex_cli_initialized, ex_py_state1) \<and>
   instances ex_cli_initialized ''w1'' = None \<and>
   ex_spawn \<lparr>command = ''/opt/comfy/venv/bin/python'',
             argv = ''main.py'' # buildArgs ex_options, cwd = ''/opt/comfy'',
             extra_env = getPlatformEnv Linux ex_options\<rparr> = Spawned (Some 4242)"
proof -
  have a: "launchInstance ex_py_world Linux ex_spawn ''w1'' ex_options (ex_cli, ex_py_state) =
     (Inl (ReferenceError ''process''), ex_cli_initialized, ex_py_state1)"
    by (simp add: launchInstance_def readBinding_def initialize_def ex_cli_def ex_py_state_def
          ex_py_state1_def getPythonPath_def detectVenv_def findPythonInVenv_def
          validatePython_def detectedRow_def ex_py_world_def Let_def toLowerCase_def
          lowerChar_def trim_def isSpace_def ex_cli_initialized_def)
  have b: "instances ex_cli_initialized ''w1'' = None" by (simp add: ex_cli_initialized_def)
  show ?thesis using a b by (simp add: ex_spawn_def)
qed

subsection \<open>Readiness poll\<close>

lemma attemptOnce_Inr:
  "attemptOnce pw k i = Inr x \<Longrightarrow> x = deliver (child_events pw k) i"
  by (auto simp: attemptOnce_def Let_def split: if_splits)

lemma pollLoop_total: "\<exists>r. pollLoop pw (Num n) k i = Some r"
proof (induction "nat (n - int k)" arbitrary: k i)
  case 0
  then have "\<not> js_lt k (Num n)" by simp
  then show ?case by (subst pollLoop.simps) simp
next
  case (Suc d)
  then have lt: "js_lt k (Num n)" by simp
  have d: "d = nat (n - int (Suc k))" using Suc.hyps(2) by simp
  show ?case
  proof (cases "attemptOnce pw k i")
    case (Inl r)
    then show ?thesis using lt by (subst pollLoop.simps) simp
  next
    case (Inr i')
    from Suc.hyps(1)[OF d, of i'] obtain r where "pollLoop pw (Num n) (Suc k) i' = Some r" by blast
    then show ?thesis using lt Inr by (subst pollLoop.simps) simp
  qed
qed

lemma pollLoop_exhaust:
  "(\<forall>j<m. \<exists>x. attemptOnce pw (k + j) (instFrom pw k j i) = Inr x) \<Longrightarrow>
   pollLoop pw (Num (int (k + m))) k i = Some (afterLoop pw (k + m) (instFrom pw k m i))"
proof (induction m arbitrary: k i)
  case 0
  show ?case by (subst pollLoop.simps) simp
next
  case (Suc m)
  from Suc.prems have "\<exists>x. attemptOnce pw (k + 0) (instFrom pw k 0 i) = Inr x" by blast
  then obtain x where x: "attemptOnce pw k i = Inr x" by auto
  have xd: "x = deliver (child_events pw k) i" using attemptOnce_Inr[OF x] .
  have "\<forall>j<m. \<exists>y. attemptOnce pw (Suc k + j) (instFrom pw (Suc k) j x) = Inr y"
  proof (intro allI impI)
    fix j assume "j < m"
    then have "Suc j < Suc m" by simp
    with Suc.prems have "\<exists>y. attemptOnce pw (k + Suc j) (instFrom pw k (Suc j) i) = Inr y" by blast
    then show "\<exists>y. attemptOnce pw (Suc k + j) (instFrom pw (Suc k) j x) = Inr y"
      by (simp add: xd)
  qed
  from Suc.IH[OF this]
  have rec: "pollLoop pw (Num (int (Suc k + m))) (Suc k) x =
               Some (afterLoop pw (Suc k + m) (instFrom pw (Suc k) m x))" .
  show ?case
    by (subst pollLoop.simps) (use x rec xd in simp)
qed

lemma ceilDiv_ceiling:
  "c \<noteq> 0 \<Longrightarrow> ceilDiv (Some t) (Some c) = Num \<lceil>real_of_int t / real_of_int c\<rceil>"
  by (simp add: ceilDiv_def ceiling_divide_eq_div)

text \<open>
  C6. The poll makes the given number of attempts when one is given (and is not 0), and
  otherwise \<open>\<lceil>startupTimeout / checkInterval\<rceil>\<close>. An attempt that reaches the scan of the
  error buffer (the process check passed, the API probe failed) and finds one of the fatal
  substrings sets the status to \<open>error\<close> and returns \<open>{false, error}\<close>. When all \<open>m\<close>
  attempts have been inconclusive, the poll returns \<open>{false, starting}\<close> if the pid is set
  and the process still runs, and otherwise records the error and returns
  \<open>{false, error}\<close>. With a finite number of attempts the loop always returns.
\<close>

theorem readiness_poll_attempts_fatal_exhaustion:
  "(n \<noteq> 0 \<longrightarrow> effectiveAttempts cli (Some n) = Num n) \<and>
   (startupTimeout cli = Some t \<and> checkInterval cli = Some c \<and> c \<noteq> 0 \<longrightarrow>
      effectiveAttempts cli None = Num \<lceil>real_of_int t / real_of_int c\<rceil> \<and>
      effectiveAttempts cli (Some 0) = Num \<lceil>real_of_int t / real_of_int c\<rceil>) \<and>
   (js_lt k attempts \<and>
    (pidFalsy (pid (deliver (child_events pw k) i)) \<or> proc_running pw k) \<and>
    \<not> isApiReady (http_get pw k) (deliver (child_events pw k) i) \<and>
    hasFatalErrors (errors (deliver (child_events pw k) i)) \<longrightarrow>
      pollLoop pw attempts k i =
        Some (\<lparr>ready = False, rstatus = ''error''\<rparr>, (deliver (child_events pw k) i)\<lparr>status := Error\<rparr>)) \<and>
   (instances cli wid = Some i \<and> status i \<noteq> Stopped \<and> status i \<noteq> Error \<and>
    effectiveAttempts cli maxAttempts = Num (int m) \<and>
    (\<forall>j<m. \<exists>x. attemptOnce pw j (instFrom pw 0 j i) = Inr x) \<longrightarrow>
      isInstanceReady pw cli wid maxAttempts =
        Some (if \<not> pidFalsy (pid (instFrom pw 0 m i)) \<and> proc_running pw m
              then (\<lparr>ready = False, rstatus = ''starting''\<rparr>,
                    cli\<lparr>instances := (instances cli)(wid \<mapsto> instFrom pw 0 m i)\<rparr>)
              else (\<lparr>ready = False, rstatus = ''error''\<rparr>,
                    cli\<lparr>instances := (instances cli)(wid \<mapsto>
                      (instFrom pw 0 m i)\<lparr>status := Error,
                        lastError := Some ''Process exited or API never became ready''\<rparr>)\<rparr>))) \<and>
   pollLoop pw (Num b) k i \<noteq> None"
proof -
  have A: "n \<noteq> 0 \<longrightarrow> effectiveAttempts cli (Some n) = Num n"
    by (simp add: effectiveAttempts_def)
  have B: "startupTimeout cli = Some t \<and> checkInterval cli = Some c \<and> c \<noteq> 0 \<longrightarrow>
      effectiveAttempts cli None = Num \<lceil>real_of_int t / real_of_int c\<rceil> \<and>
      effectiveAttempts cli (Some 0) = Num \<lceil>real_of_int t / real_of_int c\<rceil>"
    by (simp add: effectiveAttempts_def ceilDiv_ceiling)
  have C: "js_lt k attempts \<and>
    (pidFalsy (pid (deliver (child_events pw k) i)) \<or> proc_running pw k) \<and>
    \<not> isApiReady (http_get pw k) (deliver (child_events pw k) i) \<and>
    hasFatalErrors (errors (deliver (child_events pw k) i)) \<longrightarrow>
      pollLoop pw attempts k i =
        Some (\<lparr>ready = False, rstatus = ''error''\<rparr>, (deliver (child_events pw k) i)\<lparr>status := Error\<rparr>)"
    by (subst pollLoop.simps) (auto simp: attemptOnce_def Let_def)
  have D: "instances cli wid = Some i \<and> status i \<noteq> Stopped \<and> status i \<noteq> Error \<and>
    effectiveAttempts cli maxAttempts = Num (int m) \<and>
    (\<forall>j<m. \<exists>x. attemptOnce pw j (instFrom pw 0 j i) = Inr x) \<longrightarrow>
      isInstanceReady pw cli wid maxAttempts =
        Some (if \<not> pidFalsy (pid (instFrom pw 0 m i)) \<and> proc_running pw m
              then (\<lparr>ready = False, rstatus = ''starting''\<rparr>,
                    cli\<lparr>instances := (instances cli)(wid \<mapsto> instFrom pw 0 m i)\<rparr>)
              else (\<lparr>ready = False, rstatus = ''error''\<rparr>,
                    cli\<lparr>instances := (instances cli)(wid \<mapsto>
                      (instFrom pw 0 m i)\<lparr>status := Error,
                        lastError := Some ''Process exited or API never became ready''\<rparr>)\<rparr>))"
  proof (intro impI, elim conjE)
    assume i: "instances cli wid = Some i" and s: "status i \<noteq> Stopped" "status i \<noteq> Error"
      and e: "effectiveAttempts cli maxAttempts = Num (int m)"
      and inc: "\<forall>j<m. \<exists>x. attemptOnce pw j (instFrom pw 0 j i) = Inr x"
    have "pollLoop pw (Num (int (0 + m))) 0 i = Some (afterLoop pw (0 + m) (instFrom pw 0 m i))"
      by (rule pollLoop_exhaust) (use inc in simp)
    then have p: "pollLoop pw (Num (int m)) 0 i = Some (afterLoop pw m (instFrom pw 0 m i))" by simp
    show "isInstanceReady pw cli wid maxAttempts =
        Some (if \<not> pidFalsy (pid (instFrom pw 0 m i)) \<and> proc_running pw m
              then (\<lparr>ready = False, rstatus = ''starting''\<rparr>,
                    cli\<lparr>instances := (instances cli)(wid \<mapsto> instFrom pw 0 m i)\<rparr>)
              else (\<lparr>ready = False, rstatus = ''error''\<rparr>,
                    cli\<lparr>instances := (instances cli)(wid \<mapsto>
                      (instFrom pw 0 m i)\<lparr>status := Error,
                        lastError := Some ''Process exited or API never became ready''\<rparr>)\<rparr>))"
      using i s e p by (simp add: isInstanceReady_def afterLoop_def)
  qed
  have E: "pollLoop pw (Num b) k i \<noteq> None" using pollLoop_total[of pw b k i] by auto
  show ?thesis using A B C D E by blast
qed

lemma ex_instFrom: "instFrom ex_poll_world a j ex_starting = ex_starting"
  by (induction j arbitrary: a) (simp_all add: ex_poll_world_def deliver_def)

lemma ex_attempt: "attemptOnce ex_poll_world j ex_starting = Inr ex_starting"
  by (simp add: attemptOnce_def ex_poll_world_def deliver_def isApiReady_def hasFatalErrors_def
                ex_starting_def pidFalsy_def)

theorem readiness_poll_attempts_fatal_exhaustion_witness:
  "effectiveAttempts ex_cli_starting (Some 5) = Num 5 \<and>
   effectiveAttempts ex_cli_starting None = Num 4 \<and>
   hasFatalErrors [''ModuleNotFoundError: foo''] \<and>
   pollLoop ex_poll_fatal (Num 4) 1 ex_starting =
     Some (\<lparr>ready = False, rstatus = ''error''\<rparr>,
           ex_starting\<lparr>logs := [''ModuleNotFoundError: foo''],
                       errors := [''ModuleNotFoundError: foo''], status := Error\<rparr>) \<and>
   isInstanceReady ex_poll_world ex_cli_starting ''w1'' None =
     Some (\<lparr>ready = False, rstatus = ''starting''\<rparr>, ex_cli_starting)"
proof -
  have f: "hasFatalErrors [''ModuleNotFoundError: foo'']"
    by (simp add: hasFatalErrors_def)
  have d: "deliver (child_events ex_poll_fatal 1) ex_starting =
             ex_starting\<lparr>logs := [''ModuleNotFoundError: foo''],
                         errors := [''ModuleNotFoundError: foo'']\<rparr>"
    by (simp add: ex_poll_fatal_def deliver_def ex_starting_def)
  have c1: "js_lt 1 (Num 4) \<and>
    (pidFalsy (pid (deliver (child_events ex_poll_fatal 1) ex_starting)) \<or> proc_running ex_poll_fatal 1) \<and>
    \<not> isApiReady (http_get ex_poll_fatal 1) (deliver (child_events ex_poll_fatal 1) ex_starting) \<and>
    hasFatalErrors (errors (deliver (child_events ex_poll_fatal 1) ex_starting))"
    unfolding d using f by (simp add: ex_poll_fatal_def isApiReady_def ex_starting_def)
  have c2: "startupTimeout ex_cli_starting = Some 10000 \<and> checkInterval ex_cli_starting = Some 3000 \<and>
            (3000::int) \<noteq> 0"
    by (simp add: ex_cli_starting_def)
  have e4: "effectiveAttempts ex_cli_starting None = Num 4"
    by (simp add: effectiveAttempts_def ceilDiv_def ex_cli_starting_def)
  have c3: "instances ex_cli_starting ''w1'' = Some ex_starting \<and> status ex_starting \<noteq> Stopped \<and>
            status ex_starting \<noteq> Error \<and> effectiveAttempts ex_cli_starting None = Num (int 4) \<and>
            (\<forall>j<4. \<exists>x. attemptOnce ex_poll_world j (instFrom ex_poll_world 0 j ex_starting) = Inr x)"
  proof (intro conjI)
    show "instances ex_cli_starting ''w1'' = Some ex_starting" by (simp add: ex_cli_starting_def)
    show "status ex_starting \<noteq> Stopped" by (simp add: ex_starting_def)
    show "status ex_starting \<noteq> Error" by (simp add: ex_starting_def)
    show "effectiveAttempts ex_cli_starting None = Num (int 4)" using e4 by simp
    show "\<forall>j<4. \<exists>x. attemptOnce ex_poll_world j (instFrom ex_poll_world 0 j ex_starting) = Inr x"
      by (simp add: ex_instFrom ex_attempt)
  qed
  have same: "ex_cli_starting\<lparr>instances := (instances ex_cli_starting)(''w1'' \<mapsto> ex_starting)\<rparr> = ex_cli_starting"
    by (simp add: ex_cli_starting_def)
  note t1 = readiness_poll_attempts_fatal_exhaustion[of 5 ex_cli_starting 10000 3000 1 "Num 4"
              ex_poll_fatal ex_starting "''w1''" None 0 0]
  note t2 = readiness_poll_attempts_fatal_exhaustion[of 5 ex_cli_starting 10000 3000 1 "Num 4"
              ex_poll_world ex_starting "''w1''" None 4 0]
  have r1: "effectiveAttempts ex_cli_starting (Some 5) = Num 5" using t1 by simp
  have r2: "pollLoop ex_poll_fatal (Num 4) 1 ex_starting =
     Some (\<lparr>ready = False, rstatus = ''error''\<rparr>,
           ex_starting\<lparr>logs := [''ModuleNotFoundError: foo''],
                       errors := [''ModuleNotFoundError: foo''], status := Error\<rparr>)"
    using t1 c1 unfolding d by blast
  have alive: "\<not> pidFalsy (pid (instFrom ex_poll_world 0 4 ex_starting)) \<and> proc_running ex_poll_world 4"
    by (simp add: ex_instFrom) (simp add: ex_starting_def ex_poll_world_def pidFalsy_def)
  have r3: "isInstanceReady ex_poll_world ex_cli_starting ''w1'' None =
     Some (\<lparr>ready = False, rstatus = ''starting''\<rparr>, ex_cli_starting)"
    using t2 c3 alive same by (simp add: ex_instFrom)
  show ?thesis using r1 e4 f r2 r3 by simp
qed

subsection \<open>Metric sampler\<close>

lemma selector_01: "selectorIndices ''0,1'' = [Some 0, Some 1]"
  by (simp add: selectorIndices_def trim_def isSpace_def parseInt_def digitOf_def)

lemma selector_cpu: "selectorIndices ''cpu'' = [None]"
  by (simp add: selectorIndices_def trim_def isSpace_def parseInt_def digitOf_def)

lemma selector_mps: "selectorIndices ''mps'' = [None]"
  by (simp add: selectorIndices_def trim_def isSpace_def parseInt_def digitOf_def)

lemma insertForIndices_append:
  "insertForIndices fill devices sys iid idxs rows =
   rows @ insertForIndices fill devices sys iid idxs []"
proof (induction idxs arbitrary: rows)
  case Nil
  show ?case by simp
next
  case (Cons g idxs)
  show ?case
  proof (cases "findDevice devices g")
    case None
    then show ?thesis using Cons.IH[of rows] by simp
  next
    case (Some d)
    then show ?thesis
      using Cons.IH[of "rows @ [x]" for x] Cons.IH[of "[x]" for x] by simp
  qed
qed

lemma insertForIndices_owner:
  "r \<in> set (insertForIndices fill devices sys iid idxs []) \<Longrightarrow> m_instanceId r = iid"
proof (induction idxs)
  case Nil
  then show ?case by simp
next
  case (Cons g idxs)
  show ?case
  proof (cases "findDevice devices g")
    case None
    then show ?thesis using Cons by simp
  next
    case (Some d)
    then show ?thesis
      using Cons.prems Cons.IH
      by (subst (asm) insertForIndices.simps, simp, subst (asm) insertForIndices_append) auto
  qed
qed

lemma insertForInstances_concat:
  "insertForInstances fill devices sys insts rows =
   rows @ concat (map (\<lambda>inst. insertForIndices fill devices sys (row_id inst)
                                 (selectorIndices (row_gpuIndices inst)) []) insts)"
proof (induction insts arbitrary: rows)
  case Nil
  show ?case by simp
next
  case (Cons i insts)
  show ?case
    by (simp add: Cons.IH insertForIndices_append[of _ _ _ _ _ rows])
qed

lemma filter_owner_concat:
  assumes "distinct (map row_id insts)" "W \<in> set insts"
  shows "filter (\<lambda>r. m_instanceId r = row_id W)
           (concat (map (\<lambda>inst. insertForIndices fill devices sys (row_id inst)
                                   (selectorIndices (row_gpuIndices inst)) []) insts)) =
         insertForIndices fill devices sys (row_id W) (selectorIndices (row_gpuIndices W)) []"
  using assms
proof (induction insts)
  case Nil
  then show ?case by simp
next
  case (Cons i insts)
  let ?rows = "\<lambda>inst. insertForIndices fill devices sys (row_id inst)
                                   (selectorIndices (row_gpuIndices inst)) []"
  have own: "\<And>inst r. r \<in> set (?rows inst) \<Longrightarrow> m_instanceId r = row_id inst"
    using insertForIndices_owner by blast
  show ?case
  proof (cases "i = W")
    case True
    have "\<forall>j \<in> set insts. row_id j \<noteq> row_id W" using Cons.prems(1) True by (force simp: image_iff)
    then have "filter (\<lambda>r. m_instanceId r = row_id W) (concat (map ?rows insts)) = []"
      by (auto simp: filter_empty_conv dest: own)
    moreover have "filter (\<lambda>r. m_instanceId r = row_id W) (?rows W) = ?rows W"
      by (simp add: filter_id_conv own)
    ultimately show ?thesis using True by simp
  next
    case False
    then have W: "W \<in> set insts" using Cons.prems(2) by simp
    then have "row_id i \<noteq> row_id W" using Cons.prems(1) by (force simp: image_iff)
    then have "filter (\<lambda>r. m_instanceId r = row_id W) (?rows i) = []"
      by (auto simp: filter_empty_conv dest: own)
    moreover have "filter (\<lambda>r. m_instanceId r = row_id W) (concat (map ?rows insts)) = ?rows W"
      using Cons.IH W Cons.prems(1) by simp
    ultimately show ?thesis by simp
  qed
qed

lemma recordMetrics_smi_rows:
  "recordMetrics_smi devices sys workers rows =
   rows @ concat (map (\<lambda>inst. insertForIndices (\<lambda>x. x) devices sys (row_id inst)
                                  (selectorIndices (row_gpuIndices inst)) [])
                      (filter (\<lambda>i. row_status i = ''running'') workers))"
  by (simp add: recordMetrics_smi_def Let_def insertForInstances_concat)

lemma recordMetrics_rows:
  assumes "config ''COMFYUI_PATH'' = Some cfg"
  shows "recordMetrics getGPUInfo sys config workers rows =
   rows @ concat (map (\<lambda>inst. insertForIndices orZero (getGPUInfo (ev_value cfg)) sys (row_id inst)
                                  (selectorIndices (row_gpuIndices inst)) [])
                      (filter (\<lambda>i. row_status i = ''running'') workers))"
  using assms by (simp add: recordMetrics_def Let_def insertForInstances_concat)

lemma rows_of_01:
  assumes "findDevice devices (Some 0) = Some d0" "findDevice devices (Some 1) = Some d1"
  shows "map (\<lambda>r. (m_gpuIndex r, m_ramUsed r, m_cpuUtilization r))
           (insertForIndices fill devices sys iid (selectorIndices ''0,1'') []) =
         [(0, ramUsed sys, cpuUtilization sys), (1, ramUsed sys, cpuUtilization sys)]"
  using assms by (simp add: selector_01)

lemma rows_of_nan:
  "insertForIndices fill devices sys iid [None] [] = []"
  by (simp add: findDevice_def)

text \<open>
  C8. In one tick of either version of the sampler, a running worker \<open>W\<close> (worker ids being
  the primary key) whose selector is \<open>"0,1"\<close>, with an inventory in which devices 0 and 1 are
  found, gets exactly two new rows, for \<open>gpu_index\<close> 0 and 1 in this order, each with the
  host RAM and CPU readings of the tick; in the second version the inventory is the one
  \<open>getGPUInfo\<close> returns for the configured \<open>COMFYUI_PATH\<close>. A worker whose selector is \<open>cpu\<close> or
  \<open>mps\<close> gets no row: such a token parses to \<open>NaN\<close>, and the tokens that do are skipped
  wherever they stand in a selector. The table is only appended to, and a tick with no
  running worker leaves it as it was.
\<close>

theorem sampler_tick_attributes_rows:
  "(distinct (map row_id workers) \<and> W \<in> set workers \<and> row_status W = ''running'' \<longrightarrow>
      (row_gpuIndices W = ''0,1'' \<and>
       findDevice devices (Some 0) = Some d0 \<and> findDevice devices (Some 1) = Some d1 \<longrightarrow>
         map (\<lambda>r. (m_gpuIndex r, m_ramUsed r, m_cpuUtilization r))
           (filter (\<lambda>r. m_instanceId r = row_id W)
              (drop (length rows) (recordMetrics_smi devices sys workers rows))) =
           [(0, ramUsed sys, cpuUtilization sys), (1, ramUsed sys, cpuUtilization sys)] \<and>
         (config ''COMFYUI_PATH'' = Some cfg \<and> getGPUInfo (ev_value cfg) = devices \<longrightarrow>
            map (\<lambda>r. (m_gpuIndex r, m_ramUsed r, m_cpuUtilization r))
              (filter (\<lambda>r. m_instanceId r = row_id W)
                 (drop (length rows) (recordMetrics getGPUInfo sys config workers rows))) =
              [(0, ramUsed sys, cpuUtilization sys), (1, ramUsed sys, cpuUtilization sys)])) \<and>
      (row_gpuIndices W = ''cpu'' \<or> row_gpuIndices W = ''mps'' \<longrightarrow>
         filter (\<lambda>r. m_instanceId r = row_id W)
           (drop (length rows) (recordMetrics_smi devices sys workers rows)) = [] \<and>
         filter (\<lambda>r. m_instanceId r = row_id W)
           (drop (length rows) (recordMetrics getGPUInfo sys config workers rows)) = [])) \<and>
   take (length rows) (recordMetrics_smi devices sys workers rows) = rows \<and>
   take (length rows) (recordMetrics getGPUInfo sys config workers rows) = rows \<and>
   (filter (\<lambda>i. row_status i = ''running'') workers = [] \<longrightarrow>
      recordMetrics_smi devices sys workers rows = rows \<and>
      recordMetrics getGPUInfo sys config workers rows = rows) \<and>
   parseInt (trim ''cpu'') = None \<and> parseInt (trim ''mps'') = None \<and>
   insertForIndices fill devices sys iid idxs rows =
     insertForIndices fill devices sys iid (filter (\<lambda>g. g \<noteq> None) idxs) rows"
proof -
  let ?run = "filter (\<lambda>i. row_status i = ''running'') workers"
  let ?own = "\<lambda>r. m_instanceId r = row_id W"
  let ?proj = "\<lambda>r. (m_gpuIndex r, m_ramUsed r, m_cpuUtilization r)"
  have smi: "\<And>f. drop (length rows) (recordMetrics_smi devices sys workers rows) =
     concat (map (\<lambda>inst. insertForIndices (\<lambda>x. x) devices sys (row_id inst)
                                  (selectorIndices (row_gpuIndices inst)) []) ?run)"
    by (simp add: recordMetrics_smi_rows)
  have v2some: "\<And>c. config ''COMFYUI_PATH'' = Some c \<Longrightarrow>
     drop (length rows) (recordMetrics getGPUInfo sys config workers rows) =
     concat (map (\<lambda>inst. insertForIndices orZero (getGPUInfo (ev_value c)) sys (row_id inst)
                                  (selectorIndices (row_gpuIndices inst)) []) ?run)"
    by (simp add: recordMetrics_rows)
  have v2none: "config ''COMFYUI_PATH'' = None \<Longrightarrow>
     drop (length rows) (recordMetrics getGPUInfo sys config workers rows) = []"
    by (simp add: recordMetrics_def Let_def)
  have part1: "distinct (map row_id workers) \<and> W \<in> set workers \<and> row_status W = ''running'' \<longrightarrow>
      (row_gpuIndices W = ''0,1'' \<and>
       findDevice devices (Some 0) = Some d0 \<and> findDevice devices (Some 1) = Some d1 \<longrightarrow>
         map ?proj (filter ?own (drop (length rows) (recordMetrics_smi devices sys workers rows))) =
           [(0, ramUsed sys, cpuUtilization sys), (1, ramUsed sys, cpuUtilization sys)] \<and>
         (config ''COMFYUI_PATH'' = Some cfg \<and> getGPUInfo (ev_value cfg) = devices \<longrightarrow>
            map ?proj (filter ?own
                 (drop (length rows) (recordMetrics getGPUInfo sys config workers rows))) =
              [(0, ramUsed sys, cpuUtilization sys), (1, ramUsed sys, cpuUtilization sys)])) \<and>
      (row_gpuIndices W = ''cpu'' \<or> row_gpuIndices W = ''mps'' \<longrightarrow>
         filter ?own (drop (length rows) (recordMetrics_smi devices sys workers rows)) = [] \<and>
         filter ?own (drop (length rows) (recordMetrics getGPUInfo sys config workers rows)) = [])"
  proof (intro impI, elim conjE)
    assume d: "distinct (map row_id workers)" and w: "W \<in> set workers"
      and r: "row_status W = ''running''"
    have dr: "distinct (map row_id ?run)" using d by (rule distinct_map_filter)
    have wr: "W \<in> set ?run" using w r by simp
    note own = filter_owner_concat[OF dr wr]
    have a: "row_gpuIndices W = ''0,1'' \<and>
       findDevice devices (Some 0) = Some d0 \<and> findDevice devices (Some 1) = Some d1 \<longrightarrow>
         map ?proj (filter ?own (drop (length rows) (recordMetrics_smi devices sys workers rows))) =
           [(0, ramUsed sys, cpuUtilization sys), (1, ramUsed sys, cpuUtilization sys)] \<and>
         (config ''COMFYUI_PATH'' = Some cfg \<and> getGPUInfo (ev_value cfg) = devices \<longrightarrow>
            map ?proj (filter ?own
                 (drop (length rows) (recordMetrics getGPUInfo sys config workers rows))) =
              [(0, ramUsed sys, cpuUtilization sys), (1, ramUsed sys, cpuUtilization sys)])"
    proof (intro impI conjI)
      assume h: "row_gpuIndices W = ''0,1'' \<and>
         findDevice devices (Some 0) = Some d0 \<and> findDevice devices (Some 1) = Some d1"
      show "map ?proj (filter ?own (drop (length rows) (recordMetrics_smi devices sys workers rows))) =
           [(0, ramUsed sys, cpuUtilization sys), (1, ramUsed sys, cpuUtilization sys)]"
        unfolding smi own using h rows_of_01[of devices d0 d1] by simp
    next
      assume h: "row_gpuIndices W = ''0,1'' \<and>
         findDevice devices (Some 0) = Some d0 \<and> findDevice devices (Some 1) = Some d1"
      assume c: "config ''COMFYUI_PATH'' = Some cfg \<and> getGPUInfo (ev_value cfg) = devices"
      show "map ?proj (filter ?own
                 (drop (length rows) (recordMetrics getGPUInfo sys config workers rows))) =
              [(0, ramUsed sys, cpuUtilization sys), (1, ramUsed sys, cpuUtilization sys)]"
        using c h rows_of_01[of devices d0 d1] by (simp add: v2some own)
    qed
    have b: "row_gpuIndices W = ''cpu'' \<or> row_gpuIndices W = ''mps'' \<longrightarrow>
         filter ?own (drop (length rows) (recordMetrics_smi devices sys workers rows)) = [] \<and>
         filter ?own (drop (length rows) (recordMetrics getGPUInfo sys config workers rows)) = []"
    proof (intro impI conjI)
      assume h: "row_gpuIndices W = ''cpu'' \<or> row_gpuIndices W = ''mps''"
      then have s: "selectorIndices (row_gpuIndices W) = [None]"
        using selector_cpu selector_mps by auto
      show "filter ?own (drop (length rows) (recordMetrics_smi devices sys workers rows)) = []"
        unfolding smi own by (simp add: s findDevice_def)
      show "filter ?own (drop (length rows) (recordMetrics getGPUInfo sys config workers rows)) = []"
      proof (cases "config ''COMFYUI_PATH''")
        case None
        then show ?thesis by (simp add: v2none)
      next
        case (Some c)
        then show ?thesis by (simp add: v2some own s findDevice_def)
      qed
    qed
    show "(row_gpuIndices W = ''0,1'' \<and>
       findDevice devices (Some 0) = Some d0 \<and> findDevice devices (Some 1) = Some d1 \<longrightarrow>
         map ?proj (filter ?own (drop (length rows) (recordMetrics_smi devices sys workers rows))) =
           [(0, ramUsed sys, cpuUtilization sys), (1, ramUsed sys, cpuUtilization sys)] \<and>
         (config ''COMFYUI_PATH'' = Some cfg \<and> getGPUInfo (ev_value cfg) = devices \<longrightarrow>
            map ?proj (filter ?own
                 (drop (length rows) (recordMetrics getGPUInfo sys config workers rows))) =
              [(0, ramUsed sys, cpuUtilization sys), (1, ramUsed sys, cpuUtilization sys)])) \<and>
      (row_gpuIndices W = ''cpu'' \<or> row_gpuIndices W = ''mps'' \<longrightarrow>
         filter ?own (drop (length rows) (recordMetrics_smi devices sys workers rows)) = [] \<and>
         filter ?own (drop (length rows) (recordMetrics getGPUInfo sys config workers rows)) = [])"
      using a b by (rule conjI)
  qed
  have part2: "take (length rows) (recordMetrics_smi devices sys workers rows) = rows"
    by (simp add: recordMetrics_smi_rows)
  have part3: "take (length rows) (recordMetrics getGPUInfo sys config workers rows) = rows"
    by (cases "config ''COMFYUI_PATH''") (simp_all add: recordMetrics_rows, simp add: recordMetrics_def Let_def)
  have part4: "filter (\<lambda>i. row_status i = ''running'') workers = [] \<longrightarrow>
      recordMetrics_smi devices sys workers rows = rows \<and>
      recordMetrics getGPUInfo sys config workers rows = rows"
    by (simp add: recordMetrics_smi_def recordMetrics_def)
  have part5: "parseInt (trim ''cpu'') = None \<and> parseInt (trim ''mps'') = None"
    by (simp add: trim_def isSpace_def parseInt_def digitOf_def)
  have part6: "insertForIndices fill devices sys iid idxs rows =
     insertForIndices fill devices sys iid (filter (\<lambda>g. g \<noteq> None) idxs) rows"
    by (induction idxs arbitrary: rows) (auto simp: findDevice_def split: option.splits)
  show ?thesis using part1 part2 part3 part4 part5 part6 by (intro conjI) simp_all
qed

theorem sampler_tick_attributes_rows_witness:
  "map (\<lambda>r. (m_gpuIndex r, m_ramUsed r, m_cpuUtilization r))
     (filter (\<lambda>r. m_instanceId r = ''W'')
        (recordMetrics_smi ex_devices ex_sys [ex_worker, ex_cpu_worker] [])) =
     [(0, Some 4096, Some (25 / 2)), (1, Some 4096, Some (25 / 2))] \<and>
   map (\<lambda>r. (m_gpuIndex r, m_ramUsed r, m_cpuUtilization r))
     (filter (\<lambda>r. m_instanceId r = ''W'')
        (recordMetrics (\<lambda>path. ex_devices) ex_sys ex_config [ex_worker, ex_cpu_worker] [])) =
     [(0, Some 4096, Some (25 / 2)), (1, Some 4096, Some (25 / 2))] \<and>
   filter (\<lambda>r. m_instanceId r = ''C'')
     (recordMetrics (\<lambda>path. ex_devices) ex_sys ex_config [ex_worker, ex_cpu_worker] []) = [] \<and>
   recordMetrics (\<lambda>path. ex_devices) ex_sys ex_config
     [ex_worker\<lparr>row_status := ''stopped''\<rparr>] [] = []"
proof -
  have h1: "distinct (map row_id [ex_worker, ex_cpu_worker]) \<and> ex_worker \<in> set [ex_worker, ex_cpu_worker] \<and>
            row_status ex_worker = ''running''"
    by (simp add: ex_worker_def ex_cpu_worker_def)
  have h2: "row_gpuIndices ex_worker = ''0,1'' \<and>
            findDevice ex_devices (Some 0) = Some (ex_devices ! 0) \<and>
            findDevice ex_devices (Some 1) = Some (ex_devices ! 1)"
    by (simp add: ex_worker_def findDevice_def ex_devices_def)
  have h3: "ex_config ''COMFYUI_PATH'' = Some \<lparr>ev_value = ''/opt/comfy'', ev_description = None\<rparr> \<and>
            (\<lambda>path. ex_devices) (ev_value \<lparr>ev_value = ''/opt/comfy'', ev_description = None\<rparr>) = ex_devices"
    by (simp add: ex_config_def)
  have h4: "distinct (map row_id [ex_worker, ex_cpu_worker]) \<and> ex_cpu_worker \<in> set [ex_worker, ex_cpu_worker] \<and>
            row_status ex_cpu_worker = ''running''"
    by (simp add: ex_worker_def ex_cpu_worker_def)
  have h5: "row_gpuIndices ex_cpu_worker = ''cpu'' \<or> row_gpuIndices ex_cpu_worker = ''mps''"
    by (simp add: ex_cpu_worker_def)
  have h6: "filter (\<lambda>i. row_status i = ''running'') [ex_worker\<lparr>row_status := ''stopped''\<rparr>] = []"
    by simp
  note t1 = sampler_tick_attributes_rows[where workers = "[ex_worker, ex_cpu_worker]" and W = ex_worker
      and devices = ex_devices and ?d0.0 = "ex_devices ! 0" and ?d1.0 = "ex_devices ! 1" and rows = "[]"
      and sys = ex_sys and config = ex_config
      and cfg = "\<lparr>ev_value = ''/opt/comfy'', ev_description = None\<rparr>"
      and getGPUInfo = "\<lambda>path. ex_devices"]
  note t2 = sampler_tick_attributes_rows[where workers = "[ex_worker, ex_cpu_worker]" and W = ex_cpu_worker
      and devices = ex_devices and rows = "[]" and sys = ex_sys and config = ex_config
      and getGPUInfo = "\<lambda>path. ex_devices"]
  note t3 = sampler_tick_attributes_rows[where workers = "[ex_worker\<lparr>row_status := ''stopped''\<rparr>]"
      and devices = ex_devices and rows = "[]" and sys = ex_sys and config = ex_config
      and getGPUInfo = "\<lambda>path. ex_devices"]
  have idW: "row_id ex_worker = ''W''" by (simp add: ex_worker_def)
  have idC: "row_id ex_cpu_worker = ''C''" by (simp add: ex_cpu_worker_def)
  have sysv: "ramUsed ex_sys = Some 4096 \<and> cpuUtilization ex_sys = Some (25 / 2)"
    by (simp add: ex_sys_def)
  have r1: "map (\<lambda>r. (m_gpuIndex r, m_ramUsed r, m_cpuUtilization r))
     (filter (\<lambda>r. m_instanceId r = ''W'')
        (recordMetrics_smi ex_devices ex_sys [ex_worker, ex_cpu_worker] [])) =
     [(0, Some 4096, Some (25 / 2)), (1, Some 4096, Some (25 / 2))]"
    using t1 h1 h2 by (simp add: idW sysv)
  have r2: "map (\<lambda>r. (m_gpuIndex r, m_ramUsed r, m_cpuUtilization r))
     (filter (\<lambda>r. m_instanceId r = ''W'')
        (recordMetrics (\<lambda>path. ex_devices) ex_sys ex_config [ex_worker, ex_cpu_worker] [])) =
     [(0, Some 4096, Some (25 / 2)), (1, Some 4096, Some (25 / 2))]"
    using t1 h1 h2 h3 by (simp add: idW sysv)
  have r3: "filter (\<lambda>r. m_instanceId r = ''C'')
     (recordMetrics (\<lambda>path. ex_devices) ex_sys ex_config [ex_worker, ex_cpu_worker] []) = []"
    using t2 h4 h5 by (simp add: idC)
  have r4: "recordMetrics (\<lambda>path. ex_devices) ex_sys ex_config
     [ex_worker\<lparr>row_status := ''stopped''\<rparr>] [] = []"
    using t3 h6 by simp
  show ?thesis using r1 r2 r3 r4 by (intro conjI)
qed

subsection \<open>Job scheduler: order of dispatch\<close>

lemma pendingJobs_mem:
  assumes "pendingJobs jobs = job # rest"
  shows "job \<in> set jobs \<and> job_status job = ''pending''"
proof -
  have "job \<in> set (pendingJobs jobs)" using assms by simp
  then have "job \<in> set (sort_key (\<lambda>j. (- priority j, createdAt j))
                         (filter (\<lambda>j. job_status j = ''pending'') jobs))"
    unfolding pendingJobs_def by (rule in_set_takeD)
  then show ?thesis by simp
qed

lemma jobBefore_key:
  "jobBefore a b \<longleftrightarrow> (- priority a, createdAt a) < (- priority b, createdAt b)"
  by (auto simp: jobBefore_def)

lemma pendingJobs_least:
  assumes "pendingJobs jobs = job # rest"
  shows "\<forall>j \<in> set jobs. job_status j = ''pending'' \<longrightarrow>
           (- priority job, createdAt job) \<le> (- priority j, createdAt j)"
proof -
  let ?k = "\<lambda>j. (- priority j, createdAt j)"
  let ?xs = "sort_key ?k (filter (\<lambda>j. job_status j = ''pending'') jobs)"
  from assms obtain tl where xs: "?xs = job # tl"
    unfolding pendingJobs_def by (cases ?xs) auto
  have "sorted (map ?k ?xs)" by simp
  then have "\<forall>j \<in> set tl. ?k job \<le> ?k j" unfolding xs by simp
  moreover have "set ?xs = {j \<in> set jobs. job_status j = ''pending''}" by auto
  ultimately show ?thesis unfolding xs by auto
qed

lemma pendingJobs_Nil:
  "pendingJobs jobs = [] \<longleftrightarrow> (\<forall>j \<in> set jobs. job_status j \<noteq> ''pending'')"
proof -
  let ?k = "\<lambda>j. (- priority j, createdAt j)"
  let ?ps = "filter (\<lambda>j. job_status j = ''pending'') jobs"
  have "pendingJobs jobs = [] \<longleftrightarrow> sort_key ?k ?ps = []"
    unfolding pendingJobs_def by (cases "sort_key ?k ?ps") simp_all
  also have "\<dots> \<longleftrightarrow> ?ps = []"
  proof -
    have "sort_key ?k ?ps = [] \<longleftrightarrow> length (sort_key ?k ?ps) = 0" by (simp only: length_0_conv)
    also have "\<dots> \<longleftrightarrow> length ?ps = 0" by (simp only: length_sort)
    also have "\<dots> \<longleftrightarrow> ?ps = []" by (simp only: length_0_conv)
    finally show ?thesis .
  qed
  also have "\<dots> \<longleftrightarrow> (\<forall>j \<in> set jobs. job_status j \<noteq> ''pending'')"
    by (simp add: filter_empty_conv)
  finally show ?thesis .
qed

lemma dispatchOnce_None:
  "dispatchOnce w db = None \<longleftrightarrow>
     availableInstances db = [] \<or> (\<forall>j \<in> set (jobQueue db). job_status j \<noteq> ''pending'')"
proof -
  have "dispatchOnce w db = None \<longleftrightarrow>
          availableInstances db = [] \<or> pendingJobs (jobQueue db) = []"
  proof (cases "availableInstances db")
    case Nil
    then show ?thesis by (simp add: dispatchOnce_def)
  next
    case av: (Cons i insts)
    show ?thesis
    proof (cases "pendingJobs (jobQueue db)")
      case Nil
      then show ?thesis by (simp add: dispatchOnce_def av)
    next
      case pj: (Cons j js)
      show ?thesis
        by (cases "submitJob w j i") (simp_all add: dispatchOnce_def av pj Let_def)
    qed
  qed
  then show ?thesis by (simp only: pendingJobs_Nil)
qed

lemma dispatchOnce_Some:
  assumes "dispatchOnce w db = Some (db', (job, inst), threw)"
  shows "\<exists>insts rest f.
           availableInstances db = inst # insts \<and> pendingJobs (jobQueue db) = job # rest \<and>
           (\<forall>j. job_id (f j) = job_id j \<and> job_status (f j) \<noteq> ''pending'') \<and>
           db' = db\<lparr>jobQueue := updateJobs (job_id job) f (jobQueue db)\<rparr> \<and>
           (threw \<longleftrightarrow> isl (submitJob w job inst))"
proof -
  from assms obtain insts rest where
    av: "availableInstances db = inst # insts" and pj: "pendingJobs (jobQueue db) = job # rest"
    by (auto simp: dispatchOnce_def Let_def split: list.splits sum.splits)
  let ?f1 = "\<lambda>j. j\<lparr>job_status := ''running'', instanceId := Some (row_id inst)\<rparr>"
  show ?thesis
  proof (cases "submitJob w job inst")
    case (Inr u)
    with assms av pj have "db' = db\<lparr>jobQueue := updateJobs (job_id job) ?f1 (jobQueue db)\<rparr>" "\<not> threw"
      by (auto simp: dispatchOnce_def Let_def)
    then show ?thesis using av pj Inr
      by (intro exI[of _ insts] exI[of _ rest] exI[of _ ?f1]) simp
  next
    case (Inl err)
    let ?f2 = "\<lambda>j. j\<lparr>job_status := ''failed'', job_error := Some err\<rparr>"
    from assms av pj Inl have
      "db' = db\<lparr>jobQueue := updateJobs (job_id job) ?f2 (updateJobs (job_id job) ?f1 (jobQueue db))\<rparr>" "threw"
      by (auto simp: dispatchOnce_def Let_def)
    moreover have "updateJobs (job_id job) ?f2 (updateJobs (job_id job) ?f1 (jobQueue db)) =
                   updateJobs (job_id job) (?f2 \<circ> ?f1) (jobQueue db)"
      by (simp add: updateJobs_def)
    ultimately show ?thesis using av pj Inl
      by (intro exI[of _ insts] exI[of _ rest] exI[of _ "?f2 \<circ> ?f1"]) simp
  qed
qed

lemma dispatchOnce_maximal:
  assumes d: "dispatchOnce w db = Some (db', (job, inst), threw)"
  shows "job \<in> set (jobQueue db) \<and> job_status job = ''pending'' \<and>
         (\<forall>j \<in> set (jobQueue db). job_status j = ''pending'' \<longrightarrow> \<not> jobBefore j job)"
proof -
  from dispatchOnce_Some[OF d] obtain insts rest f where
    pj: "pendingJobs (jobQueue db) = job # rest" by blast
  have mem: "job \<in> set (jobQueue db) \<and> job_status job = ''pending''"
    using pendingJobs_mem[OF pj] .
  have "\<forall>j \<in> set (jobQueue db). job_status j = ''pending'' \<longrightarrow> \<not> jobBefore j job"
  proof (intro ballI impI)
    fix j assume j: "j \<in> set (jobQueue db)" and h: "job_status j = ''pending''"
    have "(- priority job, createdAt job) \<le> (- priority j, createdAt j)"
      using pendingJobs_least[OF pj] j h by blast
    then have "\<not> (- priority j, createdAt j) < (- priority job, createdAt job)"
      by (rule leD)
    then show "\<not> jobBefore j job" unfolding jobBefore_key .
  qed
  then show ?thesis using mem by simp
qed

lemma pendingRows_updateJobs:
  assumes "\<forall>j. job_id (f j) = job_id j \<and> job_status (f j) \<noteq> ''pending''"
  shows "pendingRows (db\<lparr>jobQueue := updateJobs jid f (jobQueue db)\<rparr>) =
         {j \<in> pendingRows db. job_id j \<noteq> jid}"
  using assms by (auto simp: pendingRows_def updateJobs_def)

lemma dispatchOnce_step:
  assumes d: "dispatchOnce w db = Some (db', (job, inst), threw)"
    and inj: "inj_on (\<lambda>j. (- priority j, createdAt j)) (pendingRows db)"
  shows "job \<in> pendingRows db \<and> pendingRows db' \<subseteq> pendingRows db \<and>
         (\<forall>b \<in> pendingRows db'. jobBefore job b)"
proof -
  from dispatchOnce_Some[OF d] obtain insts rest f where
    pj: "pendingJobs (jobQueue db) = job # rest" and
    f: "\<forall>j. job_id (f j) = job_id j \<and> job_status (f j) \<noteq> ''pending''" and
    db': "db' = db\<lparr>jobQueue := updateJobs (job_id job) f (jobQueue db)\<rparr>"
    by blast
  have mem: "job \<in> pendingRows db" using pendingJobs_mem[OF pj] by (simp add: pendingRows_def)
  have rows: "pendingRows db' = {j \<in> pendingRows db. job_id j \<noteq> job_id job}"
    unfolding db' by (rule pendingRows_updateJobs[OF f])
  have least: "\<forall>b \<in> pendingRows db. (- priority job, createdAt job) \<le> (- priority b, createdAt b)"
    using pendingJobs_least[OF pj] by (simp add: pendingRows_def)
  have "\<forall>b \<in> pendingRows db'. jobBefore job b"
  proof
    fix b assume b: "b \<in> pendingRows db'"
    then have bp: "b \<in> pendingRows db" and ne: "b \<noteq> job" using rows by auto
    have "(- priority job, createdAt job) \<noteq> (- priority b, createdAt b)"
      using inj mem bp ne by (auto simp: inj_on_def)
    moreover have "(- priority job, createdAt job) \<le> (- priority b, createdAt b)"
      using least bp by blast
    ultimately show "jobBefore job b"
      unfolding jobBefore_key by (rule order.not_eq_order_implies_strict)
  qed
  then show ?thesis using mem rows by auto
qed

lemma scheduleNextJob_order:
  assumes "inj_on (\<lambda>j. (- priority j, createdAt j)) (pendingRows db)"
    and "scheduleNextJob w db = (db1, tr)"
  shows "sorted_wrt jobBefore (map fst tr) \<and> set (map fst tr) \<subseteq> pendingRows db \<and>
         pendingRows db1 \<subseteq> pendingRows db \<and>
         (\<forall>a \<in> set (map fst tr). \<forall>b \<in> pendingRows db1. jobBefore a b)"
  using assms
proof (induction w db arbitrary: db1 tr rule: scheduleNextJob.induct)
  case (1 w db)
  show ?case
  proof (cases "dispatchOnce w db")
    case None
    then have "db1 = db" "tr = []" using "1.prems"(2) by (simp_all add: scheduleNextJob.simps)
    then show ?thesis by simp
  next
    case (Some x)
    obtain db' job inst threw where x: "x = (db', (job, inst), threw)" by (cases x) auto
    note d = Some[unfolded x]
    from dispatchOnce_step[OF d "1.prems"(1)] have
      mem: "job \<in> pendingRows db" and sub: "pendingRows db' \<subseteq> pendingRows db" and
      bef: "\<forall>b \<in> pendingRows db'. jobBefore job b" by auto
    show ?thesis
    proof (cases threw)
      case False
      then have "db1 = db'" "tr = [(job, inst)]"
        using "1.prems"(2) d by (simp_all add: scheduleNextJob.simps)
      then show ?thesis using mem sub bef by simp
    next
      case True
      obtain db2 tr2 where r: "scheduleNextJob w db' = (db2, tr2)" by (cases "scheduleNextJob w db'")
      have out: "db1 = db2" "tr = (job, inst) # tr2"
        using "1.prems"(2) d True r by (simp_all add: scheduleNextJob.simps)
      have inj': "inj_on (\<lambda>j. (- priority j, createdAt j)) (pendingRows db')"
        using "1.prems"(1) sub by (rule inj_on_subset)
      from "1.IH"[OF d refl refl True inj' r] have
        ih1: "sorted_wrt jobBefore (map fst tr2)" and ih2: "set (map fst tr2) \<subseteq> pendingRows db'" and
        ih3: "pendingRows db2 \<subseteq> pendingRows db'" and
        ih4: "\<forall>a \<in> set (map fst tr2). \<forall>b \<in> pendingRows db2. jobBefore a b" by auto
      show ?thesis
        unfolding out using mem sub bef ih1 ih2 ih3 ih4 by auto
    qed
  qed
qed

lemma cancelJob_pending:
  "pendingRows (fst (snd (cancelJob db jid))) \<subseteq> pendingRows db"
  by (auto simp: cancelJob_def Let_def pendingRows_def split: list.splits)

lemma runEvents_order:
  assumes "inj_on (\<lambda>j. (- priority j, createdAt j)) (pendingRows db)"
    and "runEvents w evs db = (db1, tr)"
  shows "sorted_wrt jobBefore (map fst tr) \<and> set (map fst tr) \<subseteq> pendingRows db"
  using assms
proof (induction w evs db arbitrary: db1 tr rule: runEvents.induct)
  case (1 w db)
  then show ?case by simp
next
  case (2 w evs db)
  obtain dbA trA where a: "scheduleNextJob w db = (dbA, trA)" by (cases "scheduleNextJob w db")
  obtain dbB trB where b: "runEvents w evs dbA = (dbB, trB)" by (cases "runEvents w evs dbA")
  have out: "tr = trA @ trB" using "2.prems"(2) a b by simp
  from scheduleNextJob_order[OF "2.prems"(1) a] have
    s1: "sorted_wrt jobBefore (map fst trA)" and s2: "set (map fst trA) \<subseteq> pendingRows db" and
    s3: "pendingRows dbA \<subseteq> pendingRows db" and
    s4: "\<forall>x \<in> set (map fst trA). \<forall>y \<in> pendingRows dbA. jobBefore x y" by auto
  have inj': "inj_on (\<lambda>j. (- priority j, createdAt j)) (pendingRows dbA)"
    using "2.prems"(1) s3 by (rule inj_on_subset)
  from "2.IH"[OF a[symmetric] inj' b] have
    i1: "sorted_wrt jobBefore (map fst trB)" and i2: "set (map fst trB) \<subseteq> pendingRows dbA" by auto
  have cross: "\<forall>x \<in> set (map fst trA). \<forall>y \<in> set (map fst trB). jobBefore x y"
    using s4 i2 by blast
  show ?case
    unfolding out using s1 i1 cross s2 i2 s3 by (auto simp: sorted_wrt_append)
next
  case (3 w jid evs db)
  let ?db' = "fst (snd (cancelJob db jid))"
  have sub: "pendingRows ?db' \<subseteq> pendingRows db" by (rule cancelJob_pending)
  have inj': "inj_on (\<lambda>j. (- priority j, createdAt j)) (pendingRows ?db')"
    using "3.prems"(1) sub by (rule inj_on_subset)
  have r: "runEvents w evs ?db' = (db1, tr)" using "3.prems"(2) by simp
  from "3.IH"[OF inj' r] show ?case using sub by auto
next
  case (4 w rows evs db)
  let ?db' = "db\<lparr>comfyInstances := rows\<rparr>"
  have eq: "pendingRows ?db' = pendingRows db" by (simp add: pendingRows_def)
  have r: "runEvents w evs ?db' = (db1, tr)" using "4.prems"(2) by simp
  from "4.IH"[OF _ r] "4.prems"(1) show ?case by (simp add: eq)
qed

text \<open>
  With the job ids distinct (\<open>id\<close> is the primary key), binding a job takes exactly that
  row out of the pending rows.
\<close>

lemma dispatchOnce_rows:
  assumes d: "dispatchOnce w db = Some (db', (job, inst), threw)"
    and dist: "distinct (map job_id (jobQueue db))"
  shows "pendingRows db' = pendingRows db - {job} \<and>
         map job_id (jobQueue db') = map job_id (jobQueue db)"
proof -
  from dispatchOnce_Some[OF d] obtain insts rest f where
    pj: "pendingJobs (jobQueue db) = job # rest" and
    f: "\<forall>j. job_id (f j) = job_id j \<and> job_status (f j) \<noteq> ''pending''" and
    db': "db' = db\<lparr>jobQueue := updateJobs (job_id job) f (jobQueue db)\<rparr>"
    by blast
  have mem: "job \<in> set (jobQueue db)" using pendingJobs_mem[OF pj] by simp
  have inj: "inj_on job_id (set (jobQueue db))" using dist by (simp add: distinct_map)
  have rows: "pendingRows db' = {j \<in> pendingRows db. job_id j \<noteq> job_id job}"
    unfolding db' by (rule pendingRows_updateJobs[OF f])
  have "{j \<in> pendingRows db. job_id j \<noteq> job_id job} = pendingRows db - {job}"
    using inj mem by (auto simp: pendingRows_def inj_on_def)
  moreover have "map job_id (jobQueue db') = map job_id (jobQueue db)"
    unfolding db' using f by (simp add: updateJobs_def)
  ultimately show ?thesis using rows by simp
qed

lemma scheduleNextJob_rows:
  assumes "distinct (map job_id (jobQueue db))" and "scheduleNextJob w db = (db1, tr)"
  shows "pendingRows db1 = pendingRows db - set (map fst tr) \<and>
         map job_id (jobQueue db1) = map job_id (jobQueue db)"
  using assms
proof (induction w db arbitrary: db1 tr rule: scheduleNextJob.induct)
  case (1 w db)
  show ?case
  proof (cases "dispatchOnce w db")
    case None
    then have "db1 = db" "tr = []" using "1.prems"(2) by (simp_all add: scheduleNextJob.simps)
    then show ?thesis by simp
  next
    case (Some x)
    obtain db' job inst threw where x: "x = (db', (job, inst), threw)" by (cases x) auto
    note d = Some[unfolded x]
    from dispatchOnce_rows[OF d "1.prems"(1)] have
      rows: "pendingRows db' = pendingRows db - {job}" and
      ids: "map job_id (jobQueue db') = map job_id (jobQueue db)" by auto
    show ?thesis
    proof (cases threw)
      case False
      then have "db1 = db'" "tr = [(job, inst)]"
        using "1.prems"(2) d by (simp_all add: scheduleNextJob.simps)
      then show ?thesis using rows ids by simp
    next
      case True
      obtain db2 tr2 where r: "scheduleNextJob w db' = (db2, tr2)" by (cases "scheduleNextJob w db'")
      have out: "db1 = db2" "tr = (job, inst) # tr2"
        using "1.prems"(2) d True r by (simp_all add: scheduleNextJob.simps)
      have dist': "distinct (map job_id (jobQueue db'))" using "1.prems"(1) ids by simp
      from "1.IH"[OF d refl refl True dist' r] have
        "pendingRows db2 = pendingRows db' - set (map fst tr2)"
        "map job_id (jobQueue db2) = map job_id (jobQueue db')" by auto
      then show ?thesis unfolding out using rows ids by auto
    qed
  qed
qed

lemma repeated_dispatch_rows:
  assumes "distinct (map job_id (jobQueue db))"
    and "runEvents w (replicate n Dispatch) db = (db1, tr)"
  shows "pendingRows db1 = pendingRows db - set (map fst tr)"
  using assms
proof (induction n arbitrary: db db1 tr)
  case 0
  then show ?case by simp
next
  case (Suc n)
  obtain dbA trA where a: "scheduleNextJob w db = (dbA, trA)" by (cases "scheduleNextJob w db")
  obtain dbB trB where b: "runEvents w (replicate n Dispatch) dbA = (dbB, trB)"
    by (cases "runEvents w (replicate n Dispatch) dbA")
  have out: "db1 = dbB" "tr = trA @ trB" using Suc.prems(2) a b by simp_all
  from scheduleNextJob_rows[OF Suc.prems(1) a] have
    rA: "pendingRows dbA = pendingRows db - set (map fst trA)" and
    ids: "map job_id (jobQueue dbA) = map job_id (jobQueue db)" by auto
  have dist': "distinct (map job_id (jobQueue dbA))" using Suc.prems(1) ids by simp
  from Suc.IH[OF dist' b] have "pendingRows dbB = pendingRows dbA - set (map fst trB)" .
  then show ?case unfolding out using rA by auto
qed

lemma ex_wf1: "workflowData ex_job1 = ''{}''"
  by (simp add: ex_job1_def)

lemma ex_wf2: "workflowData ex_job2 = ''{}''"
  by (simp add: ex_job2_def)

lemma ex_avail: "availableInstances ex_queue = [ex_worker]"
  by (simp add: availableInstances_def ex_queue_def ex_worker_def ex_job1_def ex_job2_def)

lemma ex_pending: "pendingJobs (jobQueue ex_queue) = [ex_job2]"
  by (simp add: pendingJobs_def ex_queue_def ex_job1_def ex_job2_def)

lemma ex_submit_echo:
  "workflowData j = ''{}'' \<Longrightarrow> submitJob ex_world_echo j i = Inr ()"
  by (simp add: submitJob_def ex_world_echo_def ex_json_def)

lemma ex_submit_down:
  "workflowData j = ''{}'' \<Longrightarrow>
   submitJob ex_world_down j i = Inl ''ShellError: Failed with exit code 7''"
  by (simp add: submitJob_def ex_world_down_def ex_json_def)

lemma ex_schedule_echo:
  "scheduleNextJob ex_world_echo ex_queue =
     (ex_queue\<lparr>jobQueue := [ex_job1, ex_job2_running]\<rparr>, [(ex_job2, ex_worker)])"
proof -
  have up: "updateJobs (job_id ex_job2)
              (\<lambda>j. j\<lparr>job_status := ''running'', instanceId := Some (row_id ex_worker)\<rparr>)
              (jobQueue ex_queue) = [ex_job1, ex_job2_running]"
    by (simp add: updateJobs_def ex_queue_def ex_job1_def ex_job2_def ex_worker_def ex_job2_running_def)
  have d: "dispatchOnce ex_world_echo ex_queue =
     Some (ex_queue\<lparr>jobQueue := [ex_job1, ex_job2_running]\<rparr>, (ex_job2, ex_worker), False)"
    unfolding dispatchOnce_def ex_avail ex_pending
    by (simp add: ex_submit_echo[OF ex_wf2] Let_def up)
  show ?thesis by (subst scheduleNextJob.simps) (simp add: d)
qed

lemma ex_schedule_busy:
  "scheduleNextJob w (ex_queue\<lparr>jobQueue := [ex_job1, ex_job2_running]\<rparr>) =
     (ex_queue\<lparr>jobQueue := [ex_job1, ex_job2_running]\<rparr>, [])"
proof -
  have av: "availableInstances (ex_queue\<lparr>jobQueue := [ex_job1, ex_job2_running]\<rparr>) = []"
    by (simp add: availableInstances_def ex_queue_def ex_worker_def ex_job1_def ex_job2_def
                  ex_job2_running_def)
  have d: "dispatchOnce w (ex_queue\<lparr>jobQueue := [ex_job1, ex_job2_running]\<rparr>) = None"
    unfolding dispatchOnce_def av by simp
  show ?thesis by (subst scheduleNextJob.simps) (simp add: d)
qed

lemma ex_busy_forever:
  "runEvents w (replicate n Dispatch) (ex_queue\<lparr>jobQueue := [ex_job1, ex_job2_running]\<rparr>) =
     (ex_queue\<lparr>jobQueue := [ex_job1, ex_job2_running]\<rparr>, [])"
  by (induction n) (simp_all add: ex_schedule_busy)

lemma ex_one_worker_never_drains:
  "runEvents ex_world_echo (replicate (Suc n) Dispatch) ex_queue =
     (ex_queue\<lparr>jobQueue := [ex_job1, ex_job2_running]\<rparr>, [(ex_job2, ex_worker)])"
  by (simp add: ex_schedule_echo ex_busy_forever)

text \<open>
  The queue of the two pending jobs J1 (priority 0) and J2 (priority 10), which differ in
  \<open>(priority, created_at)\<close>, with the one running worker W answering every POST with status
  200 and the posted body. Three dispatches in a row bind J2 and nothing else: J2 stays
  \<open>running\<close> on W, so W is never idle again and J1 is still pending at the end. The two
  jobs are not drained.
\<close>

theorem repeated_dispatch_leaves_pending_counterexample:
  "(priority ex_job1, createdAt ex_job1) \<noteq> (priority ex_job2, createdAt ex_job2) \<and>
   jobQueue ex_queue = [ex_job1, ex_job2] \<and>
   job_status ex_job1 = ''pending'' \<and> job_status ex_job2 = ''pending'' \<and>
   runEvents ex_world_echo [Dispatch, Dispatch, Dispatch] ex_queue =
     (ex_queue\<lparr>jobQueue := [ex_job1, ex_job2_running]\<rparr>, [(ex_job2, ex_worker)]) \<and>
   availableInstances (ex_queue\<lparr>jobQueue := [ex_job1, ex_job2_running]\<rparr>) = []"
proof -
  have a: "(priority ex_job1, createdAt ex_job1) \<noteq> (priority ex_job2, createdAt ex_job2)"
    by (simp add: ex_job1_def ex_job2_def)
  have b: "jobQueue ex_queue = [ex_job1, ex_job2]" by (simp add: ex_queue_def)
  have c: "job_status ex_job1 = ''pending'' \<and> job_status ex_job2 = ''pending''"
    by (simp add: ex_job1_def ex_job2_def)
  have d: "runEvents ex_world_echo [Dispatch, Dispatch, Dispatch] ex_queue =
     (ex_queue\<lparr>jobQueue := [ex_job1, ex_job2_running]\<rparr>, [(ex_job2, ex_worker)])"
    using ex_one_worker_never_drains[of 2] by (simp add: numeral_2_eq_2)
  have e: "availableInstances (ex_queue\<lparr>jobQueue := [ex_job1, ex_job2_running]\<rparr>) = []"
    by (simp add: availableInstances_def ex_queue_def ex_worker_def ex_job1_def ex_job2_def
                  ex_job2_running_def)
  show ?thesis
    by (intro conjI)
       (fact a, fact b, fact c[THEN conjunct1], fact c[THEN conjunct2], fact d, fact e)
qed

text \<open>
  C5 (as amended). A dispatch step binds a job exactly when a running worker holds no
  running job and a pending job exists, and the job it binds is a pending job that no
  pending job precedes in the order \<open>priority DESC, created_at ASC\<close>. When the pending jobs
  have pairwise distinct \<open>(priority, created_at)\<close>, the jobs bound over any sequence of
  scheduler runs, cancellations and changes of the worker table are pending jobs of the
  initial queue and are bound in strictly increasing order of \<open>(-priority, +created_at)\<close>.
  Under repeated dispatch alone, with the job ids distinct, every job that was pending at
  the start is either among the jobs bound or still pending at the end.
\<close>

theorem dispatch_in_priority_order:
  "(dispatchOnce w db = None \<longleftrightarrow>
      availableInstances db = [] \<or> (\<forall>j \<in> set (jobQueue db). job_status j \<noteq> ''pending'')) \<and>
   (dispatchOnce w db = Some (db', (job, inst), threw) \<longrightarrow>
      job \<in> set (jobQueue db) \<and> job_status job = ''pending'' \<and>
      (\<forall>j \<in> set (jobQueue db). job_status j = ''pending'' \<longrightarrow> \<not> jobBefore j job)) \<and>
   (distinct (map (\<lambda>j. (priority j, createdAt j))
                 (filter (\<lambda>j. job_status j = ''pending'') (jobQueue db))) \<and>
    runEvents w evs db = (db1, tr) \<longrightarrow>
      sorted_wrt jobBefore (map fst tr) \<and>
      (\<forall>j \<in> set (map fst tr). j \<in> set (jobQueue db) \<and> job_status j = ''pending'')) \<and>
   (distinct (map job_id (jobQueue db)) \<and>
    runEvents w (replicate n Dispatch) db = (db2, tr2) \<longrightarrow>
      pendingRows db2 = pendingRows db - set (map fst tr2))"
proof -
  let ?k = "\<lambda>j. (- priority j, createdAt j)"
  have one: "dispatchOnce w db = Some (db', (job, inst), threw) \<longrightarrow>
      job \<in> set (jobQueue db) \<and> job_status job = ''pending'' \<and>
      (\<forall>j \<in> set (jobQueue db). job_status j = ''pending'' \<longrightarrow> \<not> jobBefore j job)"
  proof
    assume d: "dispatchOnce w db = Some (db', (job, inst), threw)"
    show "job \<in> set (jobQueue db) \<and> job_status job = ''pending'' \<and>
      (\<forall>j \<in> set (jobQueue db). job_status j = ''pending'' \<longrightarrow> \<not> jobBefore j job)"
      by (rule dispatchOnce_maximal[OF d])
  qed
  have many: "distinct (map (\<lambda>j. (priority j, createdAt j))
                 (filter (\<lambda>j. job_status j = ''pending'') (jobQueue db))) \<and>
      runEvents w evs db = (db1, tr) \<longrightarrow>
      sorted_wrt jobBefore (map fst tr) \<and>
      (\<forall>j \<in> set (map fst tr). j \<in> set (jobQueue db) \<and> job_status j = ''pending'')"
  proof
    assume h: "distinct (map (\<lambda>j. (priority j, createdAt j))
                 (filter (\<lambda>j. job_status j = ''pending'') (jobQueue db))) \<and>
      runEvents w evs db = (db1, tr)"
    then have "inj_on (\<lambda>j. (priority j, createdAt j))
                 (set (filter (\<lambda>j. job_status j = ''pending'') (jobQueue db)))"
      by (simp add: distinct_map)
    then have inj: "inj_on ?k (pendingRows db)"
      by (auto simp: inj_on_def pendingRows_def)
    from h have r: "runEvents w evs db = (db1, tr)" by simp
    from runEvents_order[OF inj r]
    show "sorted_wrt jobBefore (map fst tr) \<and>
            (\<forall>j \<in> set (map fst tr). j \<in> set (jobQueue db) \<and> job_status j = ''pending'')"
      by (auto simp: pendingRows_def)
  qed
  have rows: "distinct (map job_id (jobQueue db)) \<and>
      runEvents w (replicate n Dispatch) db = (db2, tr2) \<longrightarrow>
      pendingRows db2 = pendingRows db - set (map fst tr2)"
  proof
    assume h: "distinct (map job_id (jobQueue db)) \<and>
      runEvents w (replicate n Dispatch) db = (db2, tr2)"
    show "pendingRows db2 = pendingRows db - set (map fst tr2)"
      by (rule repeated_dispatch_rows[OF h[THEN conjunct1] h[THEN conjunct2]])
  qed
  show ?thesis
    by (intro conjI) (fact dispatchOnce_None, fact one, fact many, fact rows)
qed

lemma ex2_first:
  "scheduleNextJob ex_world_echo ex_queue2 =
     (ex_queue2\<lparr>jobQueue := [ex_job1, ex_job2_running]\<rparr>, [(ex_job2, ex_worker)])"
proof -
  have av: "availableInstances ex_queue2 = [ex_worker, ex_worker2]"
    by (simp add: availableInstances_def ex_queue2_def ex_worker_def ex_worker2_def ex_job1_def ex_job2_def)
  have pj: "pendingJobs (jobQueue ex_queue2) = [ex_job2]"
    by (simp add: pendingJobs_def ex_queue2_def ex_job1_def ex_job2_def)
  have up: "updateJobs (job_id ex_job2)
              (\<lambda>j. j\<lparr>job_status := ''running'', instanceId := Some (row_id ex_worker)\<rparr>)
              (jobQueue ex_queue2) = [ex_job1, ex_job2_running]"
    by (simp add: updateJobs_def ex_queue2_def ex_job1_def ex_job2_def ex_worker_def ex_job2_running_def)
  have d: "dispatchOnce ex_world_echo ex_queue2 =
     Some (ex_queue2\<lparr>jobQueue := [ex_job1, ex_job2_running]\<rparr>, (ex_job2, ex_worker), False)"
    unfolding dispatchOnce_def av pj by (simp add: ex_submit_echo[OF ex_wf2] Let_def up)
  show ?thesis by (subst scheduleNextJob.simps) (simp add: d)
qed

lemma ex2_second:
  "scheduleNextJob ex_world_echo (ex_queue2\<lparr>jobQueue := [ex_job1, ex_job2_running]\<rparr>) =
     (ex_queue2\<lparr>jobQueue := [ex_job1_running, ex_job2_running]\<rparr>, [(ex_job1, ex_worker2)])"
proof -
  let ?db = "ex_queue2\<lparr>jobQueue := [ex_job1, ex_job2_running]\<rparr>"
  have av: "availableInstances ?db = [ex_worker2]"
    by (simp add: availableInstances_def ex_queue2_def ex_worker_def ex_worker2_def ex_job1_def
                  ex_job2_def ex_job2_running_def)
  have pj: "pendingJobs (jobQueue ?db) = [ex_job1]"
    by (simp add: pendingJobs_def ex_queue2_def ex_job1_def ex_job2_def ex_job2_running_def)
  have up: "updateJobs (job_id ex_job1)
              (\<lambda>j. j\<lparr>job_status := ''running'', instanceId := Some (row_id ex_worker2)\<rparr>)
              [ex_job1, ex_job2_running] = [ex_job1_running, ex_job2_running]"
    by (simp add: updateJobs_def ex_queue2_def ex_job1_def ex_job2_def ex_worker2_def
                  ex_job2_running_def ex_job1_running_def)
  have d: "dispatchOnce ex_world_echo ?db =
     Some (ex_queue2\<lparr>jobQueue := [ex_job1_running, ex_job2_running]\<rparr>, (ex_job1, ex_worker2), False)"
    unfolding dispatchOnce_def av pj by (simp add: ex_submit_echo[OF ex_wf1] Let_def up)
  show ?thesis by (subst scheduleNextJob.simps) (simp add: d)
qed

lemma ex2_run:
  "runEvents ex_world_echo [Dispatch, Dispatch] ex_queue2 =
     (ex_queue2\<lparr>jobQueue := [ex_job1_running, ex_job2_running]\<rparr>,
      [(ex_job2, ex_worker), (ex_job1, ex_worker2)])"
  by (simp add: ex2_first ex2_second)

theorem dispatch_in_priority_order_witness:
  "availableInstances ex_queue2 \<noteq> [] \<and>
   dispatchOnce ex_world_echo ex_queue2 =
     Some (ex_queue2\<lparr>jobQueue := [ex_job1, ex_job2_running]\<rparr>, (ex_job2, ex_worker), False) \<and>
   \<not> jobBefore ex_job1 ex_job2 \<and>
   distinct (map (\<lambda>j. (priority j, createdAt j))
               (filter (\<lambda>j. job_status j = ''pending'') (jobQueue ex_queue2))) \<and>
   distinct (map job_id (jobQueue ex_queue2)) \<and>
   runEvents ex_world_echo [Dispatch, Dispatch] ex_queue2 =
     (ex_queue2\<lparr>jobQueue := [ex_job1_running, ex_job2_running]\<rparr>,
      [(ex_job2, ex_worker), (ex_job1, ex_worker2)]) \<and>
   sorted_wrt jobBefore [ex_job2, ex_job1] \<and>
   jobBefore ex_job2 ex_job1 \<and> priority ex_job2 = 10 \<and> priority ex_job1 = 0 \<and>
   pendingRows (ex_queue2\<lparr>jobQueue := [ex_job1_running, ex_job2_running]\<rparr>) =
     pendingRows ex_queue2 - {ex_job2, ex_job1} \<and>
   pendingRows (ex_queue2\<lparr>jobQueue := [ex_job1_running, ex_job2_running]\<rparr>) = {}"
proof -
  have h: "distinct (map (\<lambda>j. (priority j, createdAt j))
               (filter (\<lambda>j. job_status j = ''pending'') (jobQueue ex_queue2)))"
    by (simp add: ex_queue2_def ex_job1_def ex_job2_def)
  have i: "distinct (map job_id (jobQueue ex_queue2))"
    by (simp add: ex_queue2_def ex_job1_def ex_job2_def)
  have av: "availableInstances ex_queue2 \<noteq> []"
    by (simp add: availableInstances_def ex_queue2_def ex_worker_def ex_worker2_def ex_job1_def ex_job2_def)
  have pj: "pendingJobs (jobQueue ex_queue2) = [ex_job2]"
    by (simp add: pendingJobs_def ex_queue2_def ex_job1_def ex_job2_def)
  have up: "updateJobs (job_id ex_job2)
              (\<lambda>j. j\<lparr>job_status := ''running'', instanceId := Some (row_id ex_worker)\<rparr>)
              (jobQueue ex_queue2) = [ex_job1, ex_job2_running]"
    by (simp add: updateJobs_def ex_queue2_def ex_job1_def ex_job2_def ex_worker_def ex_job2_running_def)
  have av2: "availableInstances ex_queue2 = [ex_worker, ex_worker2]"
    by (simp add: availableInstances_def ex_queue2_def ex_worker_def ex_worker2_def ex_job1_def ex_job2_def)
  have d: "dispatchOnce ex_world_echo ex_queue2 =
     Some (ex_queue2\<lparr>jobQueue := [ex_job1, ex_job2_running]\<rparr>, (ex_job2, ex_worker), False)"
    unfolding dispatchOnce_def av2 pj by (simp add: ex_submit_echo[OF ex_wf2] Let_def up)
  have r2: "runEvents ex_world_echo (replicate 2 Dispatch) ex_queue2 =
     (ex_queue2\<lparr>jobQueue := [ex_job1_running, ex_job2_running]\<rparr>,
      [(ex_job2, ex_worker), (ex_job1, ex_worker2)])"
    using ex2_run by (simp add: numeral_2_eq_2)
  note t = dispatch_in_priority_order[of ex_world_echo ex_queue2
      "ex_queue2\<lparr>jobQueue := [ex_job1, ex_job2_running]\<rparr>" ex_job2 ex_worker False
      "[Dispatch, Dispatch]" "ex_queue2\<lparr>jobQueue := [ex_job1_running, ex_job2_running]\<rparr>"
      "[(ex_job2, ex_worker), (ex_job1, ex_worker2)]" 2
      "ex_queue2\<lparr>jobQueue := [ex_job1_running, ex_job2_running]\<rparr>"
      "[(ex_job2, ex_worker), (ex_job1, ex_worker2)]"]
  have m1: "ex_job1 \<in> set (jobQueue ex_queue2) \<and> job_status ex_job1 = ''pending''"
    by (simp add: ex_queue2_def ex_job1_def)
  have nb: "\<not> jobBefore ex_job1 ex_job2"
    using t[THEN conjunct2, THEN conjunct1] d m1 by blast
  have s: "sorted_wrt jobBefore [ex_job2, ex_job1]"
    using t[THEN conjunct2, THEN conjunct2, THEN conjunct1] h ex2_run by simp
  then have b: "jobBefore ex_job2 ex_job1" by simp
  have p: "priority ex_job2 = 10 \<and> priority ex_job1 = 0" by (simp add: ex_job1_def ex_job2_def)
  have rows: "pendingRows (ex_queue2\<lparr>jobQueue := [ex_job1_running, ex_job2_running]\<rparr>) =
     pendingRows ex_queue2 - {ex_job2, ex_job1}"
    using t[THEN conjunct2, THEN conjunct2, THEN conjunct2] i r2 by simp
  have none: "pendingRows (ex_queue2\<lparr>jobQueue := [ex_job1_running, ex_job2_running]\<rparr>) = {}"
    by (auto simp: pendingRows_def ex_job1_running_def ex_job2_running_def)
  show ?thesis
    by (intro conjI)
       (fact av, fact d, fact nb, fact h, fact i, fact ex2_run, fact s, fact b,
        fact p[THEN conjunct1], fact p[THEN conjunct2], fact rows, fact none)
qed

subsection \<open>Job scheduler: outcome of a submission\<close>

lemma updateJobs_other_id:
  assumes "\<And>j. job_id (f j) = job_id j" "jid' \<noteq> jid"
  shows "filter (\<lambda>j. job_id j = jid) (updateJobs jid' f jobs) = filter (\<lambda>j. job_id j = jid) jobs"
  using assms by (induction jobs) (auto simp: updateJobs_def)

lemma updateJobs_same_id:
  assumes "\<And>j. job_id (f j) = job_id j"
  shows "filter (\<lambda>j. job_id j = jid) (updateJobs jid f jobs) =
         map f (filter (\<lambda>j. job_id j = jid) jobs)"
  using assms by (induction jobs) (auto simp: updateJobs_def)

lemma scheduleNextJob_untouched:
  assumes "\<forall>j \<in> set (jobQueue db). job_id j = jid \<longrightarrow> job_status j \<noteq> ''pending''"
    and "scheduleNextJob w db = (db1, tr)"
  shows "filter (\<lambda>j. job_id j = jid) (jobQueue db1) = filter (\<lambda>j. job_id j = jid) (jobQueue db)"
  using assms
proof (induction w db arbitrary: db1 tr rule: scheduleNextJob.induct)
  case (1 w db)
  show ?case
  proof (cases "dispatchOnce w db")
    case None
    then have "db1 = db" using "1.prems"(2) by (simp add: scheduleNextJob.simps)
    then show ?thesis by simp
  next
    case (Some x)
    obtain db' job inst threw where x: "x = (db', (job, inst), threw)" by (cases x) auto
    note d = Some[unfolded x]
    from dispatchOnce_Some[OF d] obtain insts rest f where
      pj: "pendingJobs (jobQueue db) = job # rest" and
      f: "\<forall>j. job_id (f j) = job_id j \<and> job_status (f j) \<noteq> ''pending''" and
      db': "db' = db\<lparr>jobQueue := updateJobs (job_id job) f (jobQueue db)\<rparr>"
      by blast
    have ne: "job_id job \<noteq> jid" using pendingJobs_mem[OF pj] "1.prems"(1) by auto
    have same: "filter (\<lambda>j. job_id j = jid) (jobQueue db') = filter (\<lambda>j. job_id j = jid) (jobQueue db)"
      unfolding db' using f ne by (simp add: updateJobs_other_id)
    show ?thesis
    proof (cases threw)
      case False
      then have "db1 = db'" using "1.prems"(2) d by (simp add: scheduleNextJob.simps)
      then show ?thesis using same by simp
    next
      case True
      obtain db2 tr2 where r: "scheduleNextJob w db' = (db2, tr2)" by (cases "scheduleNextJob w db'")
      have out: "db1 = db2" using "1.prems"(2) d True r by (simp add: scheduleNextJob.simps)
      have pre: "\<forall>j \<in> set (jobQueue db'). job_id j = jid \<longrightarrow> job_status j \<noteq> ''pending''"
      proof (intro ballI impI)
        fix j assume j: "j \<in> set (jobQueue db')" and i: "job_id j = jid"
        then have "j \<in> set (filter (\<lambda>j. job_id j = jid) (jobQueue db'))" by simp
        then have "j \<in> set (jobQueue db)" unfolding same by simp
        then show "job_status j \<noteq> ''pending''" using "1.prems"(1) i by blast
      qed
      from "1.IH"[OF d refl refl True pre r] show ?thesis unfolding out using same by simp
    qed
  qed
qed

text \<open>
  What a run of the scheduler does after a submission that did not throw, and after one
  that threw \<open>err\<close>.
\<close>

lemma scheduleNextJob_submitted:
  assumes "availableInstances db = inst # insts" and "pendingJobs (jobQueue db) = job # rest"
    and "submitJob w job inst = Inr ()"
  shows "scheduleNextJob w db =
           (db\<lparr>jobQueue := updateJobs (job_id job)
                  (\<lambda>j. j\<lparr>job_status := ''running'', instanceId := Some (row_id inst)\<rparr>)
                  (jobQueue db)\<rparr>,
            [(job, inst)])"
  by (subst scheduleNextJob.simps) (simp add: dispatchOnce_def assms Let_def)

lemma scheduleNextJob_threw:
  assumes av: "availableInstances db = inst # insts"
    and pj: "pendingJobs (jobQueue db) = job # rest"
    and e: "submitJob w job inst = Inl err"
  shows "scheduleNextJob w db =
           (fst (scheduleNextJob w
              (db\<lparr>jobQueue := updateJobs (job_id job)
                     (\<lambda>j. j\<lparr>job_status := ''failed'', instanceId := Some (row_id inst),
                              job_error := Some err\<rparr>)
                     (jobQueue db)\<rparr>)),
            (job, inst) # snd (scheduleNextJob w
              (db\<lparr>jobQueue := updateJobs (job_id job)
                     (\<lambda>j. j\<lparr>job_status := ''failed'', instanceId := Some (row_id inst),
                              job_error := Some err\<rparr>)
                     (jobQueue db)\<rparr>))) \<and>
         filter (\<lambda>j. job_id j = job_id job) (jobQueue (fst (scheduleNextJob w db))) =
           map (\<lambda>j. j\<lparr>job_status := ''failed'', instanceId := Some (row_id inst),
                         job_error := Some err\<rparr>)
               (filter (\<lambda>j. job_id j = job_id job) (jobQueue db))"
proof -
  let ?run = "\<lambda>j. j\<lparr>job_status := ''running'', instanceId := Some (row_id inst)\<rparr>"
  let ?fail = "\<lambda>j. j\<lparr>job_status := ''failed'', instanceId := Some (row_id inst), job_error := Some err\<rparr>"
  let ?dbf = "db\<lparr>jobQueue := updateJobs (job_id job) ?fail (jobQueue db)\<rparr>"
  have two: "updateJobs (job_id job) (\<lambda>j. j\<lparr>job_status := ''failed'', job_error := Some err\<rparr>)
               (updateJobs (job_id job) ?run (jobQueue db)) =
             updateJobs (job_id job) ?fail (jobQueue db)"
    by (simp add: updateJobs_def)
  have d: "dispatchOnce w db = Some (?dbf, (job, inst), True)"
    by (simp add: dispatchOnce_def av pj Let_def e two)
  have s: "scheduleNextJob w db =
            (fst (scheduleNextJob w ?dbf), (job, inst) # snd (scheduleNextJob w ?dbf))"
    by (subst scheduleNextJob.simps) (simp add: d split: prod.splits)
  have pre: "\<forall>j \<in> set (jobQueue ?dbf). job_id j = job_id job \<longrightarrow> job_status j \<noteq> ''pending''"
    by (auto simp: updateJobs_def)
  have pr: "scheduleNextJob w ?dbf = (fst (scheduleNextJob w ?dbf), snd (scheduleNextJob w ?dbf))"
    by simp
  have "filter (\<lambda>j. job_id j = job_id job) (jobQueue (fst (scheduleNextJob w ?dbf))) =
        filter (\<lambda>j. job_id j = job_id job) (jobQueue ?dbf)"
    by (rule scheduleNextJob_untouched[OF pre pr])
  also have "\<dots> = map ?fail (filter (\<lambda>j. job_id j = job_id job) (jobQueue db))"
    by (simp add: updateJobs_same_id)
  finally show ?thesis using s by simp
qed

lemma ex_down_run:
  "scheduleNextJob ex_world_down ex_queue =
     (ex_queue\<lparr>jobQueue := [ex_job1_failed, ex_job2_failed]\<rparr>,
      [(ex_job2, ex_worker), (ex_job1, ex_worker)])"
proof -
  let ?db1 = "ex_queue\<lparr>jobQueue := [ex_job1, ex_job2_failed]\<rparr>"
  let ?db2 = "ex_queue\<lparr>jobQueue := [ex_job1_failed, ex_job2_failed]\<rparr>"
  have up1: "updateJobs (job_id ex_job2)
               (\<lambda>j. j\<lparr>job_status := ''failed'', job_error := Some ''ShellError: Failed with exit code 7''\<rparr>)
               (updateJobs (job_id ex_job2)
                  (\<lambda>j. j\<lparr>job_status := ''running'', instanceId := Some (row_id ex_worker)\<rparr>)
                  (jobQueue ex_queue)) = [ex_job1, ex_job2_failed]"
    by (simp add: updateJobs_def ex_queue_def ex_job1_def ex_job2_def ex_worker_def ex_job2_failed_def)
  have d1: "dispatchOnce ex_world_down ex_queue = Some (?db1, (ex_job2, ex_worker), True)"
    unfolding dispatchOnce_def ex_avail ex_pending
    by (simp add: ex_submit_down[OF ex_wf2] Let_def up1)
  have av2: "availableInstances ?db1 = [ex_worker]"
    by (simp add: availableInstances_def ex_queue_def ex_worker_def ex_job1_def ex_job2_def
                  ex_job2_failed_def)
  have pj2: "pendingJobs (jobQueue ?db1) = [ex_job1]"
    by (simp add: pendingJobs_def ex_queue_def ex_job1_def ex_job2_def ex_job2_failed_def)
  have up2: "updateJobs (job_id ex_job1)
               (\<lambda>j. j\<lparr>job_status := ''failed'', job_error := Some ''ShellError: Failed with exit code 7''\<rparr>)
               (updateJobs (job_id ex_job1)
                  (\<lambda>j. j\<lparr>job_status := ''running'', instanceId := Some (row_id ex_worker)\<rparr>)
                  [ex_job1, ex_job2_failed]) = [ex_job1_failed, ex_job2_failed]"
    by (simp add: updateJobs_def ex_job1_def ex_job2_def ex_worker_def ex_job2_failed_def
                  ex_job1_failed_def)
  have d2: "dispatchOnce ex_world_down ?db1 = Some (?db2, (ex_job1, ex_worker), True)"
    unfolding dispatchOnce_def av2 pj2 by (simp add: ex_submit_down[OF ex_wf1] Let_def up2)
  have pj3: "pendingJobs (jobQueue ?db2) = []"
    by (simp add: pendingJobs_def ex_job1_def ex_job2_def ex_job2_failed_def ex_job1_failed_def)
  have d3: "dispatchOnce ex_world_down ?db2 = None"
    unfolding dispatchOnce_def pj3 by (simp split: list.splits)
  have s3: "scheduleNextJob ex_world_down ?db2 = (?db2, [])"
    by (subst scheduleNextJob.simps) (simp add: d3)
  have s2: "scheduleNextJob ex_world_down ?db1 = (?db2, [(ex_job1, ex_worker)])"
    by (subst scheduleNextJob.simps) (simp add: d2 s3)
  show ?thesis
    by (subst scheduleNextJob.simps) (simp add: d1 s2)
qed

lemma ex2_avail_after:
  "availableInstances (ex_queue2\<lparr>jobQueue := [ex_job1, ex_job2_running]\<rparr>) = [ex_worker2]"
  by (simp add: availableInstances_def ex_queue2_def ex_worker_def ex_worker2_def ex_job1_def
                ex_job2_def ex_job2_running_def)

text \<open>
  The two pending jobs J1 (priority 0) and J2 (priority 10), the worker W running on port
  8190 and answering the POST with status 200 and the posted body \<open>{}\<close>. One run of the
  scheduler binds J2 to W and leaves it in status \<open>running\<close>, not \<open>completed\<close>, with no
  output stored. With a second running worker W2 beside W the run ends the same way: W2
  is idle and J1 is pending, a further pair, and the run has not bound it.
\<close>

theorem dispatch_success_counterexample:
  "curl_post ex_world_echo ''http://localhost:8190/prompt'' (Some ''{}'') =
     CurlResponse 200 ''{}'' \<and>
   json_parse ex_world_echo ''{}'' = JsonValue \<and>
   scheduleNextJob ex_world_echo ex_queue =
     (ex_queue\<lparr>jobQueue := [ex_job1, ex_job2_running]\<rparr>, [(ex_job2, ex_worker)]) \<and>
   job_status ex_job2_running = ''running'' \<and> job_status ex_job2_running \<noteq> ''completed'' \<and>
   job_output ex_job2_running = None \<and>
   scheduleNextJob ex_world_echo ex_queue2 =
     (ex_queue2\<lparr>jobQueue := [ex_job1, ex_job2_running]\<rparr>, [(ex_job2, ex_worker)]) \<and>
   availableInstances (ex_queue2\<lparr>jobQueue := [ex_job1, ex_job2_running]\<rparr>) = [ex_worker2] \<and>
   job_status ex_job1 = ''pending''"
proof -
  have a: "curl_post ex_world_echo ''http://localhost:8190/prompt'' (Some ''{}'') =
             CurlResponse 200 ''{}'' \<and> json_parse ex_world_echo ''{}'' = JsonValue"
    by (simp add: ex_world_echo_def ex_json_def)
  have c: "job_status ex_job2_running = ''running'' \<and> job_status ex_job2_running \<noteq> ''completed'' \<and>
           job_output ex_job2_running = None \<and> job_status ex_job1 = ''pending''"
    by (simp add: ex_job2_running_def ex_job2_def ex_job1_def)
  show ?thesis
    by (intro conjI)
       (fact a[THEN conjunct1], fact a[THEN conjunct2], fact ex_schedule_echo,
        fact c[THEN conjunct1], fact c[THEN conjunct2, THEN conjunct1],
        fact c[THEN conjunct2, THEN conjunct2, THEN conjunct1], fact ex2_first,
        fact ex2_avail_after, fact c[THEN conjunct2, THEN conjunct2, THEN conjunct2])
qed

text \<open>
  C1 (as amended). A run of \<open>scheduleNextJob\<close> that finds an idle running worker and a
  pending job binds the top job to the first idle worker and, the workflow text parsing,
  posts it to the worker's \<open>/prompt\<close> endpoint. When the reply has a status from 200 to 299
  and a body that is a JSON value other than \<open>null\<close>, the job is left in status \<open>running\<close>,
  bound to the worker; nothing else is written, so its output stays as it was, and the
  scheduler does not run again. When the submission errors, either because the workflow
  text does not parse or because \<open>curl\<close> obtains no reply, every row of that job is marked
  \<open>failed\<close> with the error text stored, the scheduler runs again on the resulting queue,
  and that further run leaves the failed job as it is.
\<close>

theorem submission_outcome_recorded:
  assumes "availableInstances db = inst # insts" and "pendingJobs (jobQueue db) = job # rest"
  shows "(json_parse w (workflowData job) \<in> {JsonNull, JsonValue} \<and>
          curl_post w (''http://localhost:'' @ numToString (row_port inst) @ ''/prompt'')
            (Some (json_restringify w (workflowData job))) = CurlResponse code body \<and>
          200 \<le> code \<and> code \<le> 299 \<and> json_parse w body = JsonValue \<longrightarrow>
            scheduleNextJob w db =
              (db\<lparr>jobQueue := updateJobs (job_id job)
                     (\<lambda>j. j\<lparr>job_status := ''running'', instanceId := Some (row_id inst)\<rparr>)
                     (jobQueue db)\<rparr>,
               [(job, inst)]) \<and>
            filter (\<lambda>j. job_id j = job_id job) (jobQueue (fst (scheduleNextJob w db))) =
              map (\<lambda>j. j\<lparr>job_status := ''running'', instanceId := Some (row_id inst)\<rparr>)
                  (filter (\<lambda>j. job_id j = job_id job) (jobQueue db))) \<and>
         (json_parse w (workflowData job) = JsonThrows err \<or>
          json_parse w (workflowData job) \<in> {JsonNull, JsonValue} \<and>
          curl_post w (''http://localhost:'' @ numToString (row_port inst) @ ''/prompt'')
            (Some (json_restringify w (workflowData job))) = CurlFails err \<longrightarrow>
            scheduleNextJob w db =
              (fst (scheduleNextJob w
                 (db\<lparr>jobQueue := updateJobs (job_id job)
                        (\<lambda>j. j\<lparr>job_status := ''failed'', instanceId := Some (row_id inst),
                                 job_error := Some err\<rparr>)
                        (jobQueue db)\<rparr>)),
               (job, inst) # snd (scheduleNextJob w
                 (db\<lparr>jobQueue := updateJobs (job_id job)
                        (\<lambda>j. j\<lparr>job_status := ''failed'', instanceId := Some (row_id inst),
                                 job_error := Some err\<rparr>)
                        (jobQueue db)\<rparr>))) \<and>
            filter (\<lambda>j. job_id j = job_id job) (jobQueue (fst (scheduleNextJob w db))) =
              map (\<lambda>j. j\<lparr>job_status := ''failed'', instanceId := Some (row_id inst),
                            job_error := Some err\<rparr>)
                  (filter (\<lambda>j. job_id j = job_id job) (jobQueue db)))"
proof (intro conjI impI)
  assume h: "json_parse w (workflowData job) \<in> {JsonNull, JsonValue} \<and>
          curl_post w (''http://localhost:'' @ numToString (row_port inst) @ ''/prompt'')
            (Some (json_restringify w (workflowData job))) = CurlResponse code body \<and>
          200 \<le> code \<and> code \<le> 299 \<and> json_parse w body = JsonValue"
  then have ok: "submitJob w job inst = Inr ()"
    by (auto simp: submitJob_def)
  note s = scheduleNextJob_submitted[OF assms ok]
  show "scheduleNextJob w db =
              (db\<lparr>jobQueue := updateJobs (job_id job)
                     (\<lambda>j. j\<lparr>job_status := ''running'', instanceId := Some (row_id inst)\<rparr>)
                     (jobQueue db)\<rparr>,
               [(job, inst)])" by (rule s)
  show "filter (\<lambda>j. job_id j = job_id job) (jobQueue (fst (scheduleNextJob w db))) =
              map (\<lambda>j. j\<lparr>job_status := ''running'', instanceId := Some (row_id inst)\<rparr>)
                  (filter (\<lambda>j. job_id j = job_id job) (jobQueue db))"
    unfolding s by (simp add: updateJobs_same_id)
next
  assume h: "json_parse w (workflowData job) = JsonThrows err \<or>
          json_parse w (workflowData job) \<in> {JsonNull, JsonValue} \<and>
          curl_post w (''http://localhost:'' @ numToString (row_port inst) @ ''/prompt'')
            (Some (json_restringify w (workflowData job))) = CurlFails err"
  then have e: "submitJob w job inst = Inl err"
    by (auto simp: submitJob_def)
  note s = scheduleNextJob_threw[OF assms e]
  show "scheduleNextJob w db =
              (fst (scheduleNextJob w
                 (db\<lparr>jobQueue := updateJobs (job_id job)
                        (\<lambda>j. j\<lparr>job_status := ''failed'', instanceId := Some (row_id inst),
                                 job_error := Some err\<rparr>)
                        (jobQueue db)\<rparr>)),
               (job, inst) # snd (scheduleNextJob w
                 (db\<lparr>jobQueue := updateJobs (job_id job)
                        (\<lambda>j. j\<lparr>job_status := ''failed'', instanceId := Some (row_id inst),
                                 job_error := Some err\<rparr>)
                        (jobQueue db)\<rparr>)))" by (rule s[THEN conjunct1])
  show "filter (\<lambda>j. job_id j = job_id job) (jobQueue (fst (scheduleNextJob w db))) =
              map (\<lambda>j. j\<lparr>job_status := ''failed'', instanceId := Some (row_id inst),
                            job_error := Some err\<rparr>)
                  (filter (\<lambda>j. job_id j = job_id job) (jobQueue db))" by (rule s[THEN conjunct2])
qed

theorem submission_outcome_recorded_witness:
  "availableInstances ex_queue = [ex_worker] \<and> pendingJobs (jobQueue ex_queue) = [ex_job2] \<and>
   json_parse ex_world_echo (workflowData ex_job2) = JsonValue \<and>
   curl_post ex_world_echo (''http://localhost:'' @ numToString (row_port ex_worker) @ ''/prompt'')
     (Some (json_restringify ex_world_echo (workflowData ex_job2))) = CurlResponse 200 ''{}'' \<and>
   filter (\<lambda>j. job_id j = ''J2'') (jobQueue (fst (scheduleNextJob ex_world_echo ex_queue))) =
     [ex_job2_running] \<and>
   snd (scheduleNextJob ex_world_echo ex_queue) = [(ex_job2, ex_worker)] \<and>
   curl_post ex_world_down (''http://localhost:'' @ numToString (row_port ex_worker) @ ''/prompt'')
     (Some (json_restringify ex_world_down (workflowData ex_job2))) =
     CurlFails ''ShellError: Failed with exit code 7'' \<and>
   filter (\<lambda>j. job_id j = ''J2'') (jobQueue (fst (scheduleNextJob ex_world_down ex_queue))) =
     [ex_job2_failed] \<and>
   map fst (snd (scheduleNextJob ex_world_down ex_queue)) = [ex_job2, ex_job1]"
proof -
  note t1 = submission_outcome_recorded[OF ex_avail ex_pending, of ex_world_echo 200 "''{}''"
              "''ShellError: Failed with exit code 7''"]
  note t2 = submission_outcome_recorded[OF ex_avail ex_pending, of ex_world_down 200 "''{}''"
              "''ShellError: Failed with exit code 7''"]
  have p1: "json_parse ex_world_echo (workflowData ex_job2) = JsonValue"
    by (simp add: ex_world_echo_def ex_json_def ex_job2_def)
  have c1: "curl_post ex_world_echo (''http://localhost:'' @ numToString (row_port ex_worker) @ ''/prompt'')
     (Some (json_restringify ex_world_echo (workflowData ex_job2))) = CurlResponse 200 ''{}''"
    by (simp add: ex_world_echo_def ex_job2_def)
  have b1: "json_parse ex_world_echo ''{}'' = JsonValue"
    by (simp add: ex_world_echo_def ex_json_def)
  have p2: "json_parse ex_world_down (workflowData ex_job2) = JsonValue"
    by (simp add: ex_world_down_def ex_json_def ex_job2_def)
  have c2: "curl_post ex_world_down (''http://localhost:'' @ numToString (row_port ex_worker) @ ''/prompt'')
     (Some (json_restringify ex_world_down (workflowData ex_job2))) =
     CurlFails ''ShellError: Failed with exit code 7''"
    by (simp add: ex_world_down_def)
  have fl: "filter (\<lambda>j. job_id j = ''J2'') (jobQueue ex_queue) = [ex_job2]"
    by (simp add: ex_queue_def ex_job1_def ex_job2_def)
  have id2: "job_id ex_job2 = ''J2''" by (simp add: ex_job2_def)
  have idw: "row_id ex_worker = ''W''" by (simp add: ex_worker_def)
  have g1: "json_parse ex_world_echo (workflowData ex_job2) \<in> {JsonNull, JsonValue} \<and>
          curl_post ex_world_echo (''http://localhost:'' @ numToString (row_port ex_worker) @ ''/prompt'')
            (Some (json_restringify ex_world_echo (workflowData ex_job2))) = CurlResponse 200 ''{}'' \<and>
          (200::nat) \<le> 200 \<and> (200::nat) \<le> 299 \<and> json_parse ex_world_echo ''{}'' = JsonValue"
    using p1 c1 b1 by simp
  note f1 = t1[THEN conjunct1, THEN mp, OF g1]
  have r1: "filter (\<lambda>j. job_id j = ''J2'') (jobQueue (fst (scheduleNextJob ex_world_echo ex_queue))) =
     [ex_job2_running]"
    using f1[THEN conjunct2] unfolding id2 fl idw by (simp add: ex_job2_running_def)
  have r1b: "snd (scheduleNextJob ex_world_echo ex_queue) = [(ex_job2, ex_worker)]"
    using f1[THEN conjunct1] by simp
  have g2: "json_parse ex_world_down (workflowData ex_job2) = JsonThrows ''ShellError: Failed with exit code 7'' \<or>
          json_parse ex_world_down (workflowData ex_job2) \<in> {JsonNull, JsonValue} \<and>
          curl_post ex_world_down (''http://localhost:'' @ numToString (row_port ex_worker) @ ''/prompt'')
            (Some (json_restringify ex_world_down (workflowData ex_job2))) =
            CurlFails ''ShellError: Failed with exit code 7''"
    using p2 c2 by simp
  note f2 = t2[THEN conjunct2, THEN mp, OF g2]
  have r2: "filter (\<lambda>j. job_id j = ''J2'') (jobQueue (fst (scheduleNextJob ex_world_down ex_queue))) =
     [ex_job2_failed]"
    using f2[THEN conjunct2] unfolding id2 fl idw by (simp add: ex_job2_failed_def)
  have r3: "map fst (snd (scheduleNextJob ex_world_down ex_queue)) = [ex_job2, ex_job1]"
    by (simp add: ex_down_run)
  show ?thesis
    by (intro conjI)
       (fact ex_avail, fact ex_pending, fact p1, fact c1, fact r1, fact r1b, fact c2,
        fact r2, fact r3)
qed

subsection \<open>Job scheduler: cancellation\<close>

lemma cancelJob_never_interrupts: "snd (snd (cancelJob db jid)) = []"
  by (auto simp: cancelJob_def Let_def split: list.splits)

lemma cancelJob_transitions:
  "jobQueue (fst (snd (cancelJob db jid))) =
     map (\<lambda>j. if job_id j = jid \<and> (job_status j = ''pending'' \<or> job_status j = ''running'')
               then j\<lparr>job_status := ''cancelled''\<rparr> else j) (jobQueue db)"
proof (cases "filter (\<lambda>j. job_id j = jid \<and> (job_status j = ''pending'' \<or> job_status j = ''running''))
               (jobQueue db)")
  case Nil
  then have "\<forall>j \<in> set (jobQueue db).
               \<not> (job_id j = jid \<and> (job_status j = ''pending'' \<or> job_status j = ''running''))"
    by (simp add: filter_empty_conv)
  then have "map (\<lambda>j. if job_id j = jid \<and> (job_status j = ''pending'' \<or> job_status j = ''running'')
               then j\<lparr>job_status := ''cancelled''\<rparr> else j) (jobQueue db) = jobQueue db"
    by (intro map_idI) auto
  then show ?thesis using Nil by (simp add: cancelJob_def Let_def)
next
  case (Cons r rs)
  then show ?thesis by (simp add: cancelJob_def Let_def)
qed

text \<open>
  C2. Cancelling the job \<open>J2\<close>, which is running and bound to the running worker \<open>W\<close> on port
  8190, moves the row to \<open>cancelled\<close> and issues no request to \<open>/interrupt\<close>: the route
  tests the status of the row the update returned, which is \<open>cancelled\<close> by then, so the
  branch that posts to the worker's \<open>/interrupt\<close> is not taken.
\<close>

theorem cancel_running_sends_no_interrupt:
  "cancelJob ex_bound ''J2'' =
     (CancelOk (ex_job2_running\<lparr>job_status := ''cancelled''\<rparr>),
      ex_bound\<lparr>jobQueue := [ex_job1, ex_job2_running\<lparr>job_status := ''cancelled''\<rparr>]\<rparr>,
      []) \<and>
   job_status ex_job2_running = ''running'' \<and> instanceId ex_job2_running = Some ''W'' \<and>
   row_id ex_worker = ''W'' \<and> row_port ex_worker = 8190"
  by (simp add: cancelJob_def ex_bound_def ex_job1_def ex_job2_def ex_job2_running_def
                ex_worker_def Let_def)

end
